theory Spec2Isabelle
  imports Complex_Main "HOL-Library.Product_Lexorder" "HOL-Library.Multiset" "HOL-Library.Sublist"
begin

section \<open>Python values used by \<open>app.py\<close>\<close>

text \<open>
  A Python \<open>str\<close> is a sequence of Unicode code points and \<open>len\<close> counts code points,
  so a string is a list of code points here. \<open>ascii\<close> embeds an ASCII literal.
\<close>

type_synonym pystr = "nat list"

definition ascii :: "string \<Rightarrow> pystr" where
  "ascii s = map of_char s"

text \<open>
  Truthiness of an optional string, as \<open>if not image_url\<close> and \<open>a or b\<close> test it:
  \<open>None\<close> and the empty string are false.
\<close>

definition truthy :: "pystr option \<Rightarrow> bool" where
  "truthy v = (case v of None \<Rightarrow> False | Some s \<Rightarrow> s \<noteq> [])"

text \<open>\<open>s.startswith(p)\<close>.\<close>

definition startswith :: "pystr \<Rightarrow> pystr \<Rightarrow> bool" where
  "startswith s p = (take (length p) s = p)"

text \<open>
  \<open>s.strip()\<close> removes leading and trailing whitespace; for \<open>str\<close> these are the
  code points for which \<open>str.isspace\<close> holds.
\<close>

definition isspace :: "nat \<Rightarrow> bool" where
  "isspace c = ((9 \<le> c \<and> c \<le> 13) \<or> (28 \<le> c \<and> c \<le> 32) \<or> c = 133 \<or> c = 160 \<or> c = 5760
     \<or> (8192 \<le> c \<and> c \<le> 8202) \<or> c = 8232 \<or> c = 8233 \<or> c = 8239 \<or> c = 8287 \<or> c = 12288)"

definition strip :: "pystr \<Rightarrow> pystr" where
  "strip s = rev (dropWhile isspace (rev (dropWhile isspace s)))"

text \<open>
  Exceptions as values. \<open>ValueError\<close> is what the \<open>datetime\<close> constructor raises on a
  field out of range; \<open>Raised msg\<close> is any exception raised by an external collaborator
  (the feed parser, the HTML parser, a summarization backend), with its rendering \<open>str(e)\<close>.
\<close>

datatype py_error = ValueError | Raised pystr

section \<open>\<open>datetime\<close> and \<open>timedelta\<close>\<close>

text \<open>
  A naive \<open>datetime\<close> with the fields Python stores. Comparison (and so the sort key) is the
  lexicographic comparison of these fields, which is how \<open>datetime.__lt__\<close> is implemented.
\<close>

record datetime =
  dt_year :: int
  dt_month :: int
  dt_day :: int
  dt_hour :: int
  dt_minute :: int
  dt_second :: int
  dt_microsecond :: int

definition dt_key :: "datetime \<Rightarrow> int \<times> int \<times> int \<times> int \<times> int \<times> int \<times> int" where
  "dt_key d = (dt_year d, dt_month d, dt_day d, dt_hour d, dt_minute d, dt_second d,
     dt_microsecond d)"

definition is_leap :: "int \<Rightarrow> bool" where
  "is_leap y = (y mod 4 = 0 \<and> (y mod 100 \<noteq> 0 \<or> y mod 400 = 0))"

definition DAYS_IN_MONTH :: "int list" where
  "DAYS_IN_MONTH = [-1, 31, 28, 31, 30, 31, 30, 31, 31, 30, 31, 30, 31]"

definition DAYS_BEFORE_MONTH :: "int list" where
  "DAYS_BEFORE_MONTH = [-1, 0, 31, 59, 90, 120, 151, 181, 212, 243, 273, 304, 334]"

text \<open>Both are only called with \<open>1 \<le> month \<le> 12\<close>, so the index is in range.\<close>

definition days_in_month :: "int \<Rightarrow> int \<Rightarrow> int" where
  "days_in_month y m = (if m = 2 \<and> is_leap y then 29 else DAYS_IN_MONTH ! nat m)"

definition days_before_month :: "int \<Rightarrow> int \<Rightarrow> int" where
  "days_before_month y m = DAYS_BEFORE_MONTH ! nat m + (if m > 2 \<and> is_leap y then 1 else 0)"

definition days_before_year :: "int \<Rightarrow> int" where
  "days_before_year y = (y - 1) * 365 + (y - 1) div 4 - (y - 1) div 100 + (y - 1) div 400"

text \<open>
  \<open>datetime(year, month, day, hour, minute, second)\<close>: the constructor checks every field
  and raises \<open>ValueError\<close> on the first one out of range; the microsecond defaults to 0.
\<close>

definition datetime_new :: "int \<Rightarrow> int \<Rightarrow> int \<Rightarrow> int \<Rightarrow> int \<Rightarrow> int \<Rightarrow> py_error + datetime" where
  "datetime_new y m d hh mm ss =
     (if y < 1 \<or> 9999 < y then Inl ValueError
      else if m < 1 \<or> 12 < m then Inl ValueError
      else if d < 1 \<or> days_in_month y m < d then Inl ValueError
      else if hh < 0 \<or> 23 < hh then Inl ValueError
      else if mm < 0 \<or> 59 < mm then Inl ValueError
      else if ss < 0 \<or> 59 < ss then Inl ValueError
      else Inr \<lparr>dt_year = y, dt_month = m, dt_day = d, dt_hour = hh, dt_minute = mm,
                dt_second = ss, dt_microsecond = 0\<rparr>)"

definition toordinal :: "datetime \<Rightarrow> int" where
  "toordinal d = days_before_year (dt_year d) + days_before_month (dt_year d) (dt_month d)
     + dt_day d"

text \<open>
  \<open>timedelta(days, seconds, microseconds)\<close> normalises its arguments so that
  \<open>0 \<le> seconds < 86400\<close> and \<open>0 \<le> microseconds < 10^6\<close>; \<open>div\<close> and \<open>mod\<close> on \<open>int\<close>
  round towards minus infinity, as Python's \<open>divmod\<close> does.
\<close>

record timedelta =
  td_days :: int
  td_seconds :: int
  td_microseconds :: int

definition timedelta_new :: "int \<Rightarrow> int \<Rightarrow> int \<Rightarrow> timedelta" where
  "timedelta_new d s us =
     (let s1 = s + us div 1000000;
          us1 = us mod 1000000
      in \<lparr>td_days = d + s1 div 86400, td_seconds = s1 mod 86400, td_microseconds = us1\<rparr>)"

text \<open>\<open>a - b\<close> for two naive datetimes (\<open>datetime.__sub__\<close>).\<close>

definition dt_sub :: "datetime \<Rightarrow> datetime \<Rightarrow> timedelta" where
  "dt_sub a b = timedelta_new (toordinal a - toordinal b)
     ((dt_second a + dt_minute a * 60 + dt_hour a * 3600)
       - (dt_second b + dt_minute b * 60 + dt_hour b * 3600))
     (dt_microsecond a - dt_microsecond b)"

text \<open>
  \<open>td.total_seconds()\<close> is the quotient of the microsecond count by \<open>10^6\<close>. Python
  returns the float nearest to this quotient; rounding to nearest is monotone, 0 and 7200
  are floats, and two microsecond counts differ by at least \<open>10^-6\<close> seconds, far more
  than the float spacing near 7200, so the comparisons with the integers 0 and 7200 in the
  recency filter have the same outcome on the exact quotient, which is what is modelled.
\<close>

definition total_seconds :: "timedelta \<Rightarrow> real" where
  "total_seconds td =
     real_of_int ((td_days td * 86400 + td_seconds td) * 1000000 + td_microseconds td) / 1000000"

section \<open>Feed entries as \<open>feedparser\<close> delivers them\<close>

text \<open>
  The dictionaries of a parsed feed, one record per kind, a field per key the code reads,
  read with the semantics of a plain \<open>dict\<close>. \<open>None\<close> stands for a missing key; for the two
  parsed dates it also stands for a stored \<open>None\<close> (a date string that could not be parsed),
  which \<open>entry.get(..) or ..\<close> treats like a missing key. Every content body has its
  \<open>value\<close>.
\<close>

record media =
  m_medium :: "pystr option"
  m_type :: "pystr option"
  m_url :: "pystr option"

record thumbnail =
  t_url :: "pystr option"

record enclosure =
  enc_type :: "pystr option"
  enc_href :: "pystr option"

record link =
  l_rel :: "pystr option"
  l_type :: "pystr option"
  l_href :: "pystr option"

record content =
  c_value :: pystr

text \<open>\<open>time.struct_time\<close>: a 9-tuple; \<open>t[:6]\<close> are its first six fields.\<close>

record struct_time =
  tm_year :: int
  tm_mon :: int
  tm_mday :: int
  tm_hour :: int
  tm_min :: int
  tm_sec :: int
  tm_wday :: int
  tm_yday :: int
  tm_isdst :: int

record entry =
  e_title :: "pystr option"
  e_link :: "pystr option"
  e_published :: "pystr option"
  e_updated :: "pystr option"
  e_published_parsed :: "struct_time option"
  e_updated_parsed :: "struct_time option"
  e_media_content :: "media list option"
  e_media_thumbnail :: "thumbnail list option"
  e_enclosures :: "enclosure list option"
  e_links :: "link list option"
  e_summary :: "pystr option"
  e_content :: "content list option"

record feed =
  f_title :: "pystr option"
  f_entries :: "entry list"

text \<open>
  A parsed HTML document as \<open>soup.find\<close> walks it: its elements in document order, each
  with its tag name and its attributes.
\<close>

record element =
  el_name :: pystr
  el_attrs :: "(pystr \<times> pystr) list"

text \<open>
  The external collaborators of one run: \<open>feedparser.parse(url)\<close>,
  \<open>BeautifulSoup(html, 'html.parser')\<close>, the value \<open>datetime.utcnow()\<close> returns at the
  start of \<open>fetch_feeds\<close>, and the rendering \<open>str(datetime.now())\<close> at the \<open>k\<close>-th entry
  visited in the run.
\<close>

record env =
  feedparser_parse :: "pystr \<Rightarrow> py_error + feed"
  BeautifulSoup :: "pystr \<Rightarrow> py_error + element list"
  utcnow :: datetime
  now_str :: "nat \<Rightarrow> pystr"

text \<open>The dictionary appended to \<open>all_news\<close>, a field per key.\<close>

record news_item =
  n_title :: pystr
  n_link :: pystr
  n_source :: pystr
  n_published :: datetime
  n_raw_date :: pystr
  n_has_time :: bool
  n_summary_rss :: pystr
  n_image :: "pystr option"

section \<open>Image resolution (lines 105-151 of \<open>fetch_feeds\<close>)\<close>

text \<open>
  Each block of the source reads and possibly assigns the variable \<open>image_url\<close>; each is a
  function from the value before the block to the value after it.
\<close>

definition is_image_media :: "media \<Rightarrow> bool" where
  "is_image_media m = (m_medium m = Some (ascii ''image'')
     \<or> startswith (case m_type m of None \<Rightarrow> [] | Some t \<Rightarrow> t) (ascii ''image/''))"

fun scan_media :: "media list \<Rightarrow> pystr option \<Rightarrow> pystr option" where
  "scan_media [] image_url = image_url"
| "scan_media (m # ms) image_url =
     (if is_image_media m then m_url m else scan_media ms image_url)"

definition media_content_step :: "entry \<Rightarrow> pystr option \<Rightarrow> pystr option" where
  "media_content_step e image_url =
     (case e_media_content e of None \<Rightarrow> image_url | Some ms \<Rightarrow> scan_media ms image_url)"

definition media_thumbnail_step :: "entry \<Rightarrow> pystr option \<Rightarrow> pystr option" where
  "media_thumbnail_step e image_url =
     (if \<not> truthy image_url then
        (case e_media_thumbnail e of
           None \<Rightarrow> image_url
         | Some [] \<Rightarrow> image_url
         | Some (t # ts) \<Rightarrow> t_url t)
      else image_url)"

definition is_image_enclosure :: "enclosure \<Rightarrow> bool" where
  "is_image_enclosure x =
     startswith (case enc_type x of None \<Rightarrow> [] | Some t \<Rightarrow> t) (ascii ''image/'')"

fun scan_enclosures :: "enclosure list \<Rightarrow> pystr option \<Rightarrow> pystr option" where
  "scan_enclosures [] image_url = image_url"
| "scan_enclosures (x # xs) image_url =
     (if is_image_enclosure x then enc_href x else scan_enclosures xs image_url)"

definition enclosures_step :: "entry \<Rightarrow> pystr option \<Rightarrow> pystr option" where
  "enclosures_step e image_url =
     (if \<not> truthy image_url then
        (case e_enclosures e of None \<Rightarrow> image_url | Some xs \<Rightarrow> scan_enclosures xs image_url)
      else image_url)"

definition is_image_link :: "link \<Rightarrow> bool" where
  "is_image_link l =
     startswith (case l_type l of None \<Rightarrow> [] | Some t \<Rightarrow> t) (ascii ''image/'')"

fun scan_links :: "link list \<Rightarrow> pystr option \<Rightarrow> pystr option" where
  "scan_links [] image_url = image_url"
| "scan_links (l # ls) image_url =
     (if is_image_link l then l_href l else scan_links ls image_url)"

definition links_step :: "entry \<Rightarrow> pystr option \<Rightarrow> pystr option" where
  "links_step e image_url =
     (if \<not> truthy image_url then
        (case e_links e of None \<Rightarrow> image_url | Some ls \<Rightarrow> scan_links ls image_url)
      else image_url)"

text \<open>\<open>content_to_parse\<close>: the summary, then every content body appended in order.\<close>

definition content_to_parse :: "entry \<Rightarrow> pystr" where
  "content_to_parse e =
     (let c0 = (case e_summary e of None \<Rightarrow> [] | Some s \<Rightarrow> [] @ s)
      in case e_content e of None \<Rightarrow> c0 | Some cs \<Rightarrow> foldl (\<lambda>acc c. acc @ c_value c) c0 cs)"

text \<open>\<open>soup.find('img')\<close>: the first element named \<open>img\<close> in document order.\<close>

definition soup_find :: "pystr \<Rightarrow> element list \<Rightarrow> element option" where
  "soup_find name soup = find (\<lambda>el. el_name el = name) soup"

text \<open>\<open>tag.get(key)\<close> and \<open>tag[key]\<close> on an attribute that is present.\<close>

definition tag_get :: "element \<Rightarrow> pystr \<Rightarrow> pystr option" where
  "tag_get tag key = map_of (el_attrs tag) key"

text \<open>
  The parser is called only on a non-empty text; an exception of the parser is swallowed
  (\<open>except Exception: pass\<close>) and leaves \<open>image_url\<close> as it was.
\<close>

definition html_step :: "env \<Rightarrow> entry \<Rightarrow> pystr option \<Rightarrow> pystr option" where
  "html_step ev e image_url =
     (if \<not> truthy image_url then
        (if content_to_parse e \<noteq> [] then
           (case BeautifulSoup ev (content_to_parse e) of
              Inl err \<Rightarrow> image_url
            | Inr soup \<Rightarrow>
                (case soup_find (ascii ''img'') soup of
                   None \<Rightarrow> image_url
                 | Some img_tag \<Rightarrow>
                     (if truthy (tag_get img_tag (ascii ''src''))
                      then tag_get img_tag (ascii ''src'')
                      else image_url)))
         else image_url)
      else image_url)"

definition resolve_image :: "env \<Rightarrow> entry \<Rightarrow> pystr option" where
  "resolve_image ev e =
     html_step ev e (links_step e (enclosures_step e (media_thumbnail_step e
       (media_content_step e None))))"

section \<open>Normalising one entry (lines 89-162 of \<open>fetch_feeds\<close>)\<close>

text \<open>\<open>a or b\<close> on optional strings: \<open>a\<close> when it is truthy, else \<open>b\<close>.\<close>

definition py_or :: "pystr option \<Rightarrow> pystr option \<Rightarrow> pystr option" where
  "py_or a b = (if truthy a then a else b)"

text \<open>
  \<open>raw_published\<close>: the wall clock is rendered only when neither date string is truthy;
  \<open>k\<close> is the index of the entry within the run.
\<close>

definition raw_published :: "env \<Rightarrow> nat \<Rightarrow> entry \<Rightarrow> pystr" where
  "raw_published ev k e =
     (case py_or (py_or (e_published e) (e_updated e)) (Some (now_str ev k)) of
        None \<Rightarrow> []
      | Some s \<Rightarrow> s)"

text \<open>
  \<open>published_parsed\<close>: a \<open>struct_time\<close> is a non-empty tuple and so always truthy; the
  updated date is read only when the published one is missing.
\<close>

definition published_parsed :: "entry \<Rightarrow> struct_time option" where
  "published_parsed e =
     (case e_published_parsed e of None \<Rightarrow> e_updated_parsed e | Some t \<Rightarrow> Some t)"

text \<open>\<open>datetime(*t[:6])\<close>.\<close>

definition datetime_of :: "struct_time \<Rightarrow> py_error + datetime" where
  "datetime_of t = datetime_new (tm_year t) (tm_mon t) (tm_mday t) (tm_hour t) (tm_min t) (tm_sec t)"

definition Sem_Titulo :: pystr where
  "Sem_Titulo = ascii ''Sem T'' @ [237] @ ascii ''tulo''"

definition make_item :: "env \<Rightarrow> nat \<Rightarrow> pystr \<Rightarrow> entry \<Rightarrow> datetime \<Rightarrow> bool \<Rightarrow> news_item" where
  "make_item ev k feed_title e dt has_time =
     \<lparr>n_title = (case e_title e of None \<Rightarrow> Sem_Titulo | Some t \<Rightarrow> t),
      n_link = (case e_link e of None \<Rightarrow> [] | Some l \<Rightarrow> l),
      n_source = feed_title,
      n_published = dt,
      n_raw_date = raw_published ev k e,
      n_has_time = has_time,
      n_summary_rss = (case e_summary e of None \<Rightarrow> [] | Some s \<Rightarrow> s),
      n_image = resolve_image ev e\<rparr>"

text \<open>
  The body of the loop over \<open>feed.entries\<close>: the item it appends, or the exception it
  raises (the \<open>datetime\<close> constructor is the one call of the body that can raise).
\<close>

definition process_entry :: "env \<Rightarrow> nat \<Rightarrow> pystr \<Rightarrow> entry \<Rightarrow> py_error + news_item" where
  "process_entry ev k feed_title e =
     (case published_parsed e of
        Some t \<Rightarrow>
          (case datetime_of t of
             Inl err \<Rightarrow> Inl err
           | Inr dt \<Rightarrow> Inr (make_item ev k feed_title e dt True))
      | None \<Rightarrow> Inr (make_item ev k feed_title e (utcnow ev) False))"

section \<open>The aggregation loop and the sort (\<open>fetch_feeds\<close>)\<close>

text \<open>
  The state of a run: the list \<open>all_news\<close>, the errors reported through \<open>st.error\<close> (the
  URL and the exception), and the number of entries visited so far.
\<close>

record fetch_state =
  all_news :: "news_item list"
  reported :: "(pystr \<times> py_error) list"
  visited :: nat

text \<open>
  The inner loop. An exception leaves the loop at once; the items appended before it stay
  in \<open>all_news\<close>, so the loop returns the state together with the exception, if any.
\<close>

fun process_entries :: "env \<Rightarrow> pystr \<Rightarrow> entry list \<Rightarrow> fetch_state \<Rightarrow> fetch_state \<times> py_error option" where
  "process_entries ev feed_title [] st = (st, None)"
| "process_entries ev feed_title (e # es) st =
     (case process_entry ev (visited st) feed_title e of
        Inl err \<Rightarrow> (st\<lparr>visited := Suc (visited st)\<rparr>, Some err)
      | Inr item \<Rightarrow>
          process_entries ev feed_title es
            (st\<lparr>all_news := all_news st @ [item], visited := Suc (visited st)\<rparr>))"

text \<open>The \<open>except Exception\<close> handler: report and go on with the next URL.\<close>

definition handle_error :: "pystr \<Rightarrow> fetch_state \<times> py_error option \<Rightarrow> fetch_state" where
  "handle_error url r =
     (case snd r of
        None \<Rightarrow> fst r
      | Some err \<Rightarrow> (fst r)\<lparr>reported := reported (fst r) @ [(url, err)]\<rparr>)"

fun fetch_loop :: "env \<Rightarrow> pystr list \<Rightarrow> fetch_state \<Rightarrow> fetch_state" where
  "fetch_loop ev [] st = st"
| "fetch_loop ev (url # urls) st =
     (if strip url = [] then fetch_loop ev urls st
      else
        (case feedparser_parse ev url of
           Inl err \<Rightarrow> fetch_loop ev urls (handle_error url (st, Some err))
         | Inr fd \<Rightarrow>
             fetch_loop ev urls
               (handle_error url
                 (process_entries ev (case f_title fd of None \<Rightarrow> url | Some t \<Rightarrow> t)
                   (f_entries fd) st))))"

definition fetch_run :: "env \<Rightarrow> pystr list \<Rightarrow> fetch_state" where
  "fetch_run ev urls = fetch_loop ev urls \<lparr>all_news = [], reported = [], visited = 0\<rparr>"

text \<open>
  \<open>all_news.sort(key=lambda x: x['published'], reverse=True)\<close>. Python's sort is stable, also
  with \<open>reverse=True\<close>: the list is reversed, sorted ascending by a stable sort, and
  reversed again. \<open>sort_key\<close> is the stable insertion sort of the library; every stable sort
  returns the same list.
\<close>

definition sort_published_reverse :: "news_item list \<Rightarrow> news_item list" where
  "sort_published_reverse xs = rev (sort_key (\<lambda>x. dt_key (n_published x)) (rev xs))"

definition fetch_feeds :: "env \<Rightarrow> pystr list \<Rightarrow> news_item list" where
  "fetch_feeds ev urls = sort_published_reverse (all_news (fetch_run ev urls))"

definition fetch_errors :: "env \<Rightarrow> pystr list \<Rightarrow> (pystr \<times> py_error) list" where
  "fetch_errors ev urls = reported (fetch_run ev urls)"

section \<open>The recency filter (lines 505-509)\<close>

text \<open>
  The list comprehension over \<open>news_items\<close>, with the window as a parameter; the script
  calls it with the literal 7200.
\<close>

definition recency_filter :: "datetime \<Rightarrow> int \<Rightarrow> news_item list \<Rightarrow> news_item list" where
  "recency_filter now_utc window news_items =
     filter (\<lambda>item. 0 \<le> total_seconds (dt_sub now_utc (n_published item))
                \<and> total_seconds (dt_sub now_utc (n_published item)) \<le> real_of_int window)
       news_items"

definition recent_news :: "datetime \<Rightarrow> news_item list \<Rightarrow> news_item list" where
  "recent_news now_utc news_items = recency_filter now_utc 7200 news_items"

section \<open>Summarization (\<open>summarize_with_gemini\<close>)\<close>

text \<open>
  What the function does to the backend library, in order: \<open>genai.configure\<close> and, for a
  model name, the attempt to build the model and generate from the prompt.
\<close>

datatype backend_call = Configure pystr | Generate pystr pystr

text \<open>
  The backend: for a model name and a prompt, the text of the response, or the rendering
  \<open>str(e)\<close> of the exception raised inside the \<open>try\<close>.
\<close>

type_synonym backend = "pystr \<Rightarrow> pystr \<Rightarrow> pystr + pystr"

definition short_content_warning :: pystr where
  "short_content_warning = [9888, 65039] @ ascii '' Conte'' @ [250]
     @ ascii ''do muito curto ou indispon'' @ [237] @ ascii ''vel para resumo.''"

definition failure_prefix :: pystr where
  "failure_prefix = [10060] @ ascii '' Falha ao gerar resumo. Erros:'' @ [10]"

definition models_to_try :: "pystr list" where
  "models_to_try = [ascii ''gemini-2.5-flash'', ascii ''gemini-2.0-flash'',
     ascii ''gemini-flash-latest'', ascii ''gemini-2.5-pro'', ascii ''gemini-pro-latest'']"

definition prompt_head :: pystr where
  "prompt_head = [10] @ ascii ''    Voc'' @ [234] @ ascii '' '' @ [233]
     @ ascii '' um assistente especialista em resumos de not'' @ [237] @ ascii ''cias.'' @ [10]
     @ ascii ''    Analise o texto abaixo e gere um resumo curto, neutro e informativo, em um ''
     @ [250] @ ascii ''nico par'' @ [225] @ ascii ''grafo fluido.'' @ [10]
     @ ascii ''    Mantenha um tom jornal'' @ [237] @ ascii ''stico e objetivo, similar ao da not''
     @ [237] @ ascii ''cia original.'' @ [10] @ ascii ''    '' @ [10]
     @ ascii ''    Texto da not'' @ [237] @ ascii ''cia:'' @ [10] @ ascii ''    ''"

definition prompt_tail :: pystr where
  "prompt_tail = ascii ''  # Limita tamanho para evitar tokens excessivos'' @ [10]
     @ ascii ''    ''"

definition make_prompt :: "pystr \<Rightarrow> pystr" where
  "make_prompt text = prompt_head @ take 8000 text @ prompt_tail"

text \<open>\<open>sep.join(xs)\<close>.\<close>

fun join :: "pystr \<Rightarrow> pystr list \<Rightarrow> pystr" where
  "join sep [] = []"
| "join sep [x] = x"
| "join sep (x # y # ys) = x @ sep @ join sep (y # ys)"

text \<open>
  The loop over \<open>models_to_try\<close>: the first success is returned; a failure is recorded as
  \<open>model_name: str(e)\<close> and the next model is tried; when the list is exhausted the
  failure string is returned.
\<close>

fun try_models :: "backend \<Rightarrow> pystr \<Rightarrow> pystr list \<Rightarrow> pystr list \<Rightarrow> backend_call list
    \<Rightarrow> pystr \<times> backend_call list" where
  "try_models gen prompt [] errors calls = (failure_prefix @ join [10] errors, calls)"
| "try_models gen prompt (model_name # rest) errors calls =
     (case gen model_name prompt of
        Inr text \<Rightarrow> (text, calls @ [Generate model_name prompt])
      | Inl e \<Rightarrow>
          try_models gen prompt rest (errors @ [model_name @ ascii '': '' @ e])
            (calls @ [Generate model_name prompt]))"

text \<open>The returned string and the calls made to the backend library.\<close>

definition summarize_with_gemini :: "backend \<Rightarrow> pystr option \<Rightarrow> pystr
    \<Rightarrow> pystr \<times> backend_call list" where
  "summarize_with_gemini gen text api_key =
     (case text of
        None \<Rightarrow> (short_content_warning, [])
      | Some t \<Rightarrow>
          (if t = [] \<or> length t < 100 then (short_content_warning, [])
           else try_models gen (make_prompt t) models_to_try [] [Configure api_key]))"

section \<open>Notions used to state the properties\<close>

text \<open>
  The instant of a datetime as a count of microseconds, computed as \<open>datetime.__sub__\<close>
  computes it (ordinal day, seconds of the day, microseconds); the difference of two
  instants is the \<open>T - item.published\<close> of the recency window.
\<close>

definition instant_us :: "datetime \<Rightarrow> int" where
  "instant_us d = ((toordinal d * 86400 + (dt_second d + dt_minute d * 60 + dt_hour d * 3600))
     * 1000000 + dt_microsecond d)"

text \<open>An entry whose chosen parsed date the \<open>datetime\<close> constructor rejects.\<close>

definition entry_raises :: "entry \<Rightarrow> bool" where
  "entry_raises e =
     (case published_parsed e of
        None \<Rightarrow> False
      | Some t \<Rightarrow> isl (datetime_of t))"

text \<open>The list is in descending order of \<open>published\<close>.\<close>

definition published_descending :: "news_item list \<Rightarrow> bool" where
  "published_descending xs =
     sorted_wrt (\<lambda>x y. dt_key (n_published y) \<le> dt_key (n_published x)) xs"

section \<open>Example data\<close>

definition no_entry :: entry where
  "no_entry = \<lparr>e_title = None, e_link = None, e_published = None, e_updated = None,
     e_published_parsed = None, e_updated_parsed = None, e_media_content = None,
     e_media_thumbnail = None, e_enclosures = None, e_links = None, e_summary = None,
     e_content = None\<rparr>"

definition ex_html :: pystr where
  "ex_html = ascii ''<p>text<img src='' @ [34] @ ascii ''http://x/a.jpg'' @ [34] @ ascii ''></p>''"

definition ex_soup :: "element list" where
  "ex_soup = [\<lparr>el_name = ascii ''p'', el_attrs = []\<rparr>,
     \<lparr>el_name = ascii ''img'', el_attrs = [(ascii ''src'', ascii ''http://x/a.jpg'')]\<rparr>]"

text \<open>A document whose first \<open>img\<close> has no \<open>src\<close> and whose second one has.\<close>

definition ex_html2 :: pystr where
  "ex_html2 = ascii ''<img alt=x><img src=http://x/b.jpg>''"

definition ex_soup2 :: "element list" where
  "ex_soup2 = [\<lparr>el_name = ascii ''img'', el_attrs = [(ascii ''alt'', ascii ''x'')]\<rparr>,
     \<lparr>el_name = ascii ''img'', el_attrs = [(ascii ''src'', ascii ''http://x/b.jpg'')]\<rparr>]"

definition ex_time_published :: struct_time where
  "ex_time_published = \<lparr>tm_year = 2024, tm_mon = 2, tm_mday = 29, tm_hour = 23, tm_min = 30,
     tm_sec = 0, tm_wday = 3, tm_yday = 60, tm_isdst = 0\<rparr>"

definition ex_time_updated :: struct_time where
  "ex_time_updated = \<lparr>tm_year = 2024, tm_mon = 3, tm_mday = 1, tm_hour = 0, tm_min = 10,
     tm_sec = 0, tm_wday = 4, tm_yday = 61, tm_isdst = 0\<rparr>"

text \<open>
  \<open>ex_a1\<close> has both parsed dates, a media-content image and an embedded image;
  \<open>ex_a2\<close> and \<open>ex_c1\<close> have a date string that was not parsed.
\<close>

definition ex_a1 :: entry where
  "ex_a1 = no_entry\<lparr>e_title := Some (ascii ''a1''), e_link := Some (ascii ''http://a/1''),
     e_published_parsed := Some ex_time_published, e_updated_parsed := Some ex_time_updated,
     e_media_content := Some [\<lparr>m_medium = Some (ascii ''video''), m_type = None,
         m_url = Some (ascii ''http://a/v.mp4'')\<rparr>,
       \<lparr>m_medium = None, m_type = Some (ascii ''image/png''),
         m_url = Some (ascii ''http://a/m.png'')\<rparr>],
     e_summary := Some ex_html\<rparr>"

definition ex_a2 :: entry where
  "ex_a2 = no_entry\<lparr>e_title := Some (ascii ''a2''), e_published := Some (ascii ''24/12/2024''),
     e_summary := Some ex_html\<rparr>"

definition ex_c1 :: entry where
  "ex_c1 = no_entry\<lparr>e_link := Some (ascii ''http://c/1'')\<rparr>"

text \<open>
  The first media-content image descriptor has no \<open>url\<close>, a later one has; there is a
  thumbnail.
\<close>

definition ex_m1 :: entry where
  "ex_m1 = no_entry\<lparr>e_media_content := Some [\<lparr>m_medium = Some (ascii ''image''), m_type = None,
         m_url = None\<rparr>,
       \<lparr>m_medium = Some (ascii ''image''), m_type = None,
         m_url = Some (ascii ''http://a/late.png'')\<rparr>],
     e_media_thumbnail := Some [\<lparr>t_url = Some (ascii ''http://a/t.png'')\<rparr>]\<rparr>"

definition ex_h1 :: entry where
  "ex_h1 = no_entry\<lparr>e_content := Some [\<lparr>c_value = ex_html2\<rparr>]\<rparr>"

definition ex_feedA :: feed where
  "ex_feedA = \<lparr>f_title = Some (ascii ''Feed A''), f_entries = [ex_a1, ex_a2]\<rparr>"

definition ex_feedC :: feed where
  "ex_feedC = \<lparr>f_title = None, f_entries = [ex_c1]\<rparr>"

definition ex_now :: datetime where
  "ex_now = \<lparr>dt_year = 2024, dt_month = 3, dt_day = 1, dt_hour = 0, dt_minute = 30,
     dt_second = 0, dt_microsecond = 123456\<rparr>"

text \<open>
  Source \<open>A\<close> has two entries, source \<open>C\<close> one, every other URL fails to load; the
  wall clock renders differently at every entry.
\<close>

definition ex_env :: env where
  "ex_env = \<lparr>feedparser_parse = (\<lambda>url. if url = ascii ''A'' then Inr ex_feedA
        else if url = ascii ''C'' then Inr ex_feedC
        else Inl (Raised (ascii ''timed out''))),
     BeautifulSoup = (\<lambda>html. if html = ex_html then Inr ex_soup
        else if html = ex_html2 then Inr ex_soup2
        else Inl (Raised (ascii ''bad markup''))),
     utcnow = ex_now,
     now_str = (\<lambda>k. ascii ''2024-02-29 21:30:00.12345'' @ [48 + k])\<rparr>"

definition ex_item :: "datetime \<Rightarrow> news_item" where
  "ex_item d = \<lparr>n_title = ascii ''x'', n_link = [], n_source = ascii ''s'', n_published = d,
     n_raw_date = [], n_has_time = True, n_summary_rss = [], n_image = None\<rparr>"

text \<open>One hour before \<open>ex_now\<close>, three hours before it, ten minutes after it.\<close>

definition ex_hour_ago :: datetime where
  "ex_hour_ago = \<lparr>dt_year = 2024, dt_month = 2, dt_day = 29, dt_hour = 23, dt_minute = 30,
     dt_second = 0, dt_microsecond = 123456\<rparr>"

definition ex_three_hours_ago :: datetime where
  "ex_three_hours_ago = \<lparr>dt_year = 2024, dt_month = 2, dt_day = 29, dt_hour = 21,
     dt_minute = 30, dt_second = 0, dt_microsecond = 123456\<rparr>"

definition ex_in_ten_minutes :: datetime where
  "ex_in_ten_minutes = \<lparr>dt_year = 2024, dt_month = 3, dt_day = 1, dt_hour = 0, dt_minute = 40,
     dt_second = 0, dt_microsecond = 123456\<rparr>"

text \<open>A backend on which every model fails, and a text of 100 characters.\<close>

definition ex_backend :: backend where
  "ex_backend = (\<lambda>model_name prompt. Inl (ascii ''quota exceeded''))"

definition ex_text :: pystr where
  "ex_text = replicate 100 120"

section \<open>Image resolution: auxiliary facts\<close>

lemma truthy_simps [simp]: "truthy None = False" "truthy (Some s) = (s \<noteq> [])"
  by (simp_all add: truthy_def)

lemma scan_media_find:
  "scan_media ms img = (case find is_image_media ms of None \<Rightarrow> img | Some m \<Rightarrow> m_url m)"
  by (induction ms) auto

lemma scan_enclosures_find:
  "scan_enclosures xs img = (case find is_image_enclosure xs of None \<Rightarrow> img | Some x \<Rightarrow> enc_href x)"
  by (induction xs) auto

lemma scan_links_find:
  "scan_links ls img = (case find is_image_link ls of None \<Rightarrow> img | Some l \<Rightarrow> l_href l)"
  by (induction ls) auto

lemma media_thumbnail_step_falsy:
  "\<not> truthy img \<Longrightarrow> truthy (media_thumbnail_step e img) = truthy (media_thumbnail_step e None)
     \<and> (truthy (media_thumbnail_step e None) \<longrightarrow> media_thumbnail_step e img = media_thumbnail_step e None)"
  by (auto simp: media_thumbnail_step_def split: option.splits list.splits)

lemma enclosures_step_falsy:
  "\<not> truthy img \<Longrightarrow> truthy (enclosures_step e img) = truthy (enclosures_step e None)
     \<and> (truthy (enclosures_step e None) \<longrightarrow> enclosures_step e img = enclosures_step e None)"
  by (auto simp: enclosures_step_def scan_enclosures_find split: option.splits)

lemma links_step_falsy:
  "\<not> truthy img \<Longrightarrow> truthy (links_step e img) = truthy (links_step e None)
     \<and> (truthy (links_step e None) \<longrightarrow> links_step e img = links_step e None)"
  by (auto simp: links_step_def scan_links_find split: option.splits)

lemma html_step_falsy:
  "\<not> truthy img \<Longrightarrow> truthy (html_step ev e img) = truthy (html_step ev e None)
     \<and> (truthy (html_step ev e None) \<longrightarrow> html_step ev e img = html_step ev e None)"
  by (auto simp: html_step_def split: option.splits sum.splits)

lemma step_truthy_keep:
  "truthy img \<Longrightarrow> media_thumbnail_step e img = img"
  "truthy img \<Longrightarrow> enclosures_step e img = img"
  "truthy img \<Longrightarrow> links_step e img = img"
  "truthy img \<Longrightarrow> html_step ev e img = img"
  by (simp_all add: media_thumbnail_step_def enclosures_step_def links_step_def html_step_def)

lemma resolve_chain:
  "resolve_image ev e =
     (if truthy (media_content_step e None) then media_content_step e None
      else if truthy (media_thumbnail_step e None) then media_thumbnail_step e None
      else if truthy (enclosures_step e None) then enclosures_step e None
      else if truthy (links_step e None) then links_step e None
      else if truthy (html_step ev e None) then html_step ev e None
      else resolve_image ev e)"
  and resolve_none: "\<not> truthy (media_content_step e None) \<Longrightarrow> \<not> truthy (media_thumbnail_step e None)
     \<Longrightarrow> \<not> truthy (enclosures_step e None) \<Longrightarrow> \<not> truthy (links_step e None)
     \<Longrightarrow> \<not> truthy (html_step ev e None) \<Longrightarrow> \<not> truthy (resolve_image ev e)"
  unfolding resolve_image_def
  using media_thumbnail_step_falsy[of "media_content_step e None" e]
    enclosures_step_falsy[of "media_thumbnail_step e (media_content_step e None)" e]
    links_step_falsy[of "enclosures_step e (media_thumbnail_step e (media_content_step e None))" e]
    html_step_falsy[of "links_step e (enclosures_step e (media_thumbnail_step e (media_content_step e None)))" ev e]
  by (auto simp: step_truthy_keep)

section \<open>The aggregation loop: auxiliary facts\<close>

lemma process_entry_ok:
  "\<not> entry_raises e \<Longrightarrow> \<exists>x. process_entry ev k ft e = Inr x"
  by (auto simp: entry_raises_def process_entry_def split: option.splits sum.splits)

lemma fetch_loop_append:
  "fetch_loop ev (us @ vs) st = fetch_loop ev vs (fetch_loop ev us st)"
  by (induction us arbitrary: st) (auto split: sum.splits)

lemma process_entries_reported:
  "reported (fst (process_entries ev ft es st)) = reported st"
  by (induction es arbitrary: st) (auto split: sum.splits)

lemma process_entries_cong:
  "all_news st = all_news st' \<Longrightarrow> visited st = visited st' \<Longrightarrow>
     all_news (fst (process_entries ev ft es st)) = all_news (fst (process_entries ev ft es st'))
   \<and> visited (fst (process_entries ev ft es st)) = visited (fst (process_entries ev ft es st'))
   \<and> snd (process_entries ev ft es st) = snd (process_entries ev ft es st')"
proof (induction es arbitrary: st st')
  case Nil
  then show ?case by simp
next
  case (Cons e es)
  show ?case
  proof (cases "process_entry ev (visited st) ft e")
    case (Inl err)
    with Cons.prems show ?thesis by simp
  next
    case (Inr item)
    have "all_news (st\<lparr>all_news := all_news st @ [item], visited := Suc (visited st)\<rparr>)
        = all_news (st'\<lparr>all_news := all_news st' @ [item], visited := Suc (visited st')\<rparr>)"
      using Cons.prems by simp
    moreover have "visited (st\<lparr>all_news := all_news st @ [item], visited := Suc (visited st)\<rparr>)
        = visited (st'\<lparr>all_news := all_news st' @ [item], visited := Suc (visited st')\<rparr>)"
      using Cons.prems by simp
    ultimately show ?thesis
      using Cons.IH Inr Cons.prems by simp
  qed
qed

lemma handle_error_news [simp]:
  "all_news (handle_error url r) = all_news (fst r)"
  "visited (handle_error url r) = visited (fst r)"
  by (simp_all add: handle_error_def split: option.splits)

lemma fetch_loop_cong:
  "all_news st = all_news st' \<Longrightarrow> visited st = visited st' \<Longrightarrow>
     all_news (fetch_loop ev urls st) = all_news (fetch_loop ev urls st')
   \<and> visited (fetch_loop ev urls st) = visited (fetch_loop ev urls st')"
proof (induction urls arbitrary: st st')
  case Nil
  then show ?case by simp
next
  case (Cons url urls)
  show ?case
  proof (cases "strip url = []")
    case True
    from Cons.IH[OF Cons.prems] show ?thesis using True by simp
  next
    case False
    show ?thesis
    proof (cases "feedparser_parse ev url")
      case (Inl err)
      have "all_news (handle_error url (st, Some err)) = all_news (handle_error url (st', Some err))"
        "visited (handle_error url (st, Some err)) = visited (handle_error url (st', Some err))"
        using Cons.prems by simp_all
      from Cons.IH[OF this] show ?thesis using False Inl by simp
    next
      case (Inr fd)
      let ?ft = "case f_title fd of None \<Rightarrow> url | Some t \<Rightarrow> t"
      have "all_news (handle_error url (process_entries ev ?ft (f_entries fd) st))
          = all_news (handle_error url (process_entries ev ?ft (f_entries fd) st'))"
        "visited (handle_error url (process_entries ev ?ft (f_entries fd) st))
          = visited (handle_error url (process_entries ev ?ft (f_entries fd) st'))"
        using process_entries_cong[OF Cons.prems] by simp_all
      from Cons.IH[OF this] show ?thesis using False Inr by simp
    qed
  qed
qed

lemma handle_error_reported:
  "set (reported (fst r)) \<subseteq> set (reported (handle_error url r))"
  by (auto simp: handle_error_def split: option.splits)

lemma fetch_loop_reported_mono:
  "set (reported st) \<subseteq> set (reported (fetch_loop ev urls st))"
proof (induction urls arbitrary: st)
  case Nil
  then show ?case by simp
next
  case (Cons url urls)
  show ?case
  proof (cases "strip url = []")
    case True
    with Cons show ?thesis by simp
  next
    case False
    show ?thesis
    proof (cases "feedparser_parse ev url")
      case (Inl err)
      have "set (reported st) \<subseteq> set (reported (handle_error url (st, Some err)))"
        using handle_error_reported[of "(st, Some err)" url] by simp
      also have "\<dots> \<subseteq> set (reported (fetch_loop ev urls (handle_error url (st, Some err))))"
        by (rule Cons.IH)
      finally show ?thesis using False Inl by simp
    next
      case (Inr fd)
      let ?r = "process_entries ev (case f_title fd of None \<Rightarrow> url | Some t \<Rightarrow> t) (f_entries fd) st"
      have "set (reported st) \<subseteq> set (reported (handle_error url ?r))"
        using handle_error_reported[of ?r url] by (simp add: process_entries_reported)
      also have "\<dots> \<subseteq> set (reported (fetch_loop ev urls (handle_error url ?r)))"
        by (rule Cons.IH)
      finally show ?thesis using False Inr by simp
    qed
  qed
qed

lemma failing_source_skipped:
  assumes "feedparser_parse ev b = Inl err"
  shows "all_news (fetch_loop ev (us @ b # vs) st) = all_news (fetch_loop ev (us @ vs) st)"
proof -
  let ?s = "fetch_loop ev us st"
  have "all_news (fetch_loop ev (b # vs) ?s) = all_news (fetch_loop ev vs ?s)"
  proof (cases "strip b = []")
    case True
    then show ?thesis by simp
  next
    case False
    have "all_news (fetch_loop ev vs (handle_error b (?s, Some err))) = all_news (fetch_loop ev vs ?s)"
      using fetch_loop_cong[of "handle_error b (?s, Some err)" ?s ev vs] by simp
    then show ?thesis using False assms by simp
  qed
  then show ?thesis by (simp add: fetch_loop_append)
qed

lemma failing_source_reported:
  assumes "feedparser_parse ev b = Inl err" "strip b \<noteq> []"
  shows "(b, err) \<in> set (reported (fetch_loop ev (us @ b # vs) st))"
proof -
  let ?s = "fetch_loop ev us st"
  have "(b, err) \<in> set (reported (handle_error b (?s, Some err)))"
    by (simp add: handle_error_def)
  then have "(b, err) \<in> set (reported (fetch_loop ev vs (handle_error b (?s, Some err))))"
    using fetch_loop_reported_mono by blast
  then show ?thesis using assms by (simp add: fetch_loop_append)
qed

lemma process_entries_no_raise:
  "\<forall>e \<in> set es. \<not> entry_raises e \<Longrightarrow>
     snd (process_entries ev ft es st) = None
   \<and> length (all_news (fst (process_entries ev ft es st))) = length (all_news st) + length es"
proof (induction es arbitrary: st)
  case Nil
  then show ?case by simp
next
  case (Cons e es)
  obtain x where x: "process_entry ev (visited st) ft e = Inr x"
    using process_entry_ok[of e ev "visited st" ft] Cons.prems by auto
  have "\<forall>e \<in> set es. \<not> entry_raises e" using Cons.prems by simp
  from Cons.IH[OF this, of "st\<lparr>all_news := all_news st @ [x], visited := Suc (visited st)\<rparr>"]
  show ?case using x by simp
qed

lemma fetch_loop_invariant:
  assumes "\<And>k ft e x. process_entry ev k ft e = Inr x \<Longrightarrow> P x"
  shows "\<forall>x \<in> set (all_news st). P x \<Longrightarrow> \<forall>x \<in> set (all_news (fetch_loop ev urls st)). P x"
proof (induction urls arbitrary: st)
  case Nil
  then show ?case by simp
next
  case (Cons url urls)
  have pe: "\<And>ft es s. \<forall>x \<in> set (all_news s). P x \<Longrightarrow>
      \<forall>x \<in> set (all_news (fst (process_entries ev ft es s))). P x"
  proof -
    fix ft es s
    show "\<forall>x \<in> set (all_news s). P x \<Longrightarrow>
      \<forall>x \<in> set (all_news (fst (process_entries ev ft es s))). P x"
    proof (induction es arbitrary: s)
      case Nil
      then show ?case by simp
    next
      case (Cons e es)
      show ?case
      proof (cases "process_entry ev (visited s) ft e")
        case (Inl err)
        then show ?thesis using Cons.prems by simp
      next
        case (Inr item)
        have "\<forall>x \<in> set (all_news (s\<lparr>all_news := all_news s @ [item], visited := Suc (visited s)\<rparr>)). P x"
          using Cons.prems assms[OF Inr] by simp
        from Cons.IH[OF this] show ?thesis using Inr by simp
      qed
    qed
  qed
  show ?case
  proof (cases "strip url = []")
    case True
    then show ?thesis using Cons by simp
  next
    case False
    show ?thesis
    proof (cases "feedparser_parse ev url")
      case (Inl err)
      have "\<forall>x \<in> set (all_news (handle_error url (st, Some err))). P x"
        using Cons.prems by simp
      from Cons.IH[OF this] show ?thesis using False Inl by simp
    next
      case (Inr fd)
      have "\<forall>x \<in> set (all_news (handle_error url (process_entries ev
          (case f_title fd of None \<Rightarrow> url | Some t \<Rightarrow> t) (f_entries fd) st))). P x"
        using pe[OF Cons.prems] by simp
      from Cons.IH[OF this] show ?thesis using False Inr by simp
    qed
  qed
qed

section \<open>Sorting and time differences: auxiliary facts\<close>

lemma dt_key_inj: "dt_key (a::datetime) = dt_key b \<longleftrightarrow> a = b"
  by (cases a, cases b) (auto simp: dt_key_def)

lemma sorted_sort_published_reverse:
  "sorted_wrt (\<lambda>x y. dt_key (n_published y) \<le> dt_key (n_published x)) (sort_published_reverse xs)"
proof -
  have "sorted (map (\<lambda>x. dt_key (n_published x)) (sort_key (\<lambda>x. dt_key (n_published x)) (rev xs)))"
    by (rule sorted_sort_key)
  then have "sorted_wrt (\<lambda>x y. dt_key (n_published x) \<le> dt_key (n_published y))
      (sort_key (\<lambda>x. dt_key (n_published x)) (rev xs))"
    by (simp add: sorted_map)
  then show ?thesis
    by (simp add: sort_published_reverse_def sorted_wrt_rev)
qed

lemma stable_sort_published_reverse:
  "filter (\<lambda>x. n_published x = d) (sort_published_reverse xs) = filter (\<lambda>x. n_published x = d) xs"
proof -
  have eq: "(\<lambda>x. n_published x = d) = (\<lambda>x. dt_key (n_published x) = dt_key d)"
    by (simp add: dt_key_inj)
  have "filter (\<lambda>x. dt_key (n_published x) = dt_key d) (sort_published_reverse xs)
      = rev (filter (\<lambda>x. dt_key (n_published x) = dt_key d)
          (sort_key (\<lambda>x. dt_key (n_published x)) (rev xs)))"
    by (simp add: sort_published_reverse_def rev_filter)
  also have "\<dots> = rev (filter (\<lambda>x. dt_key (n_published x) = dt_key d) (rev xs))"
    by (simp only: sort_key_stable)
  also have "\<dots> = filter (\<lambda>x. dt_key (n_published x) = dt_key d) xs"
    by (simp add: rev_filter)
  finally show ?thesis by (simp only: eq)
qed

lemma mset_sort_published_reverse:
  "mset (sort_published_reverse xs) = mset xs"
  by (simp add: sort_published_reverse_def)

lemma timedelta_new_total:
  "(td_days (timedelta_new d s us) * 86400 + td_seconds (timedelta_new d s us)) * 1000000
     + td_microseconds (timedelta_new d s us) = (d * 86400 + s) * 1000000 + us"
proof -
  let ?s1 = "s + us div 1000000"
  have a: "(?s1 div 86400) * 86400 + ?s1 mod 86400 = ?s1" by simp
  have b: "(us div 1000000) * 1000000 + us mod 1000000 = us" by simp
  have "((d + ?s1 div 86400) * 86400 + ?s1 mod 86400) * 1000000 + us mod 1000000
      = (d * 86400 + ((?s1 div 86400) * 86400 + ?s1 mod 86400)) * 1000000 + us mod 1000000"
    by (simp only: algebra_simps)
  also have "\<dots> = (d * 86400 + ?s1) * 1000000 + us mod 1000000"
    by (simp only: a)
  also have "\<dots> = (d * 86400 + s) * 1000000 + ((us div 1000000) * 1000000 + us mod 1000000)"
    by (simp only: algebra_simps)
  also have "\<dots> = (d * 86400 + s) * 1000000 + us"
    by (simp only: b)
  finally show ?thesis
    by (simp add: timedelta_new_def Let_def)
qed

lemma total_seconds_dt_sub:
  "total_seconds (dt_sub a b) = real_of_int (instant_us a - instant_us b) / 1000000"
proof -
  have "(td_days (dt_sub a b) * 86400 + td_seconds (dt_sub a b)) * 1000000
     + td_microseconds (dt_sub a b) = instant_us a - instant_us b"
    unfolding dt_sub_def timedelta_new_total instant_us_def by (simp add: algebra_simps)
  then show ?thesis by (simp only: total_seconds_def)
qed

lemma in_window_iff:
  "(0 \<le> total_seconds (dt_sub a b) \<and> total_seconds (dt_sub a b) \<le> real_of_int w)
     \<longleftrightarrow> (0 \<le> instant_us a - instant_us b \<and> instant_us a - instant_us b \<le> w * 1000000)"
proof -
  have "(real_of_int (instant_us a - instant_us b) / 1000000 \<le> real_of_int w)
      \<longleftrightarrow> (real_of_int (instant_us a - instant_us b) \<le> real_of_int (w * 1000000))"
    by (simp add: field_simps)
  moreover have "(0 \<le> real_of_int (instant_us a - instant_us b) / 1000000)
      \<longleftrightarrow> (0 \<le> instant_us a - instant_us b)"
    by simp
  ultimately show ?thesis
    unfolding total_seconds_dt_sub by (simp only: of_int_le_iff)
qed

lemma recency_filter_eq:
  "recency_filter T W items =
     filter (\<lambda>item. 0 \<le> instant_us T - instant_us (n_published item)
                \<and> instant_us T - instant_us (n_published item) \<le> W * 1000000) items"
  unfolding recency_filter_def by (simp only: in_window_iff)

section \<open>The example run\<close>

lemma ascii_eq_iff [simp]: "ascii s = ascii t \<longleftrightarrow> s = t"
proof -
  have "inj (of_char :: char \<Rightarrow> nat)"
    by (rule injI) simp
  then show ?thesis
    unfolding ascii_def by (simp add: inj_map_eq_map)
qed

lemma ascii_Nil_iff [simp]: "ascii s = [] \<longleftrightarrow> s = []"
  by (simp add: ascii_def)

lemma startswith_ascii [simp]:
  "startswith (ascii s) (ascii p) \<longleftrightarrow> take (length p) s = p"
proof -
  have "take (length (ascii p)) (ascii s) = ascii (take (length p) s)"
    by (simp add: ascii_def take_map)
  then show ?thesis by (simp add: startswith_def)
qed

lemma startswith_Nil [simp]: "startswith [] (ascii p) \<longleftrightarrow> p = []"
  by (auto simp: startswith_def ascii_def)

lemma strip_ex_urls:
  "strip (ascii ''A'') \<noteq> []" "strip (ascii ''B'') \<noteq> []" "strip (ascii ''C'') \<noteq> []"
  by (simp_all add: ascii_def strip_def isspace_def)

lemma ex_parse:
  "feedparser_parse ex_env (ascii ''A'') = Inr ex_feedA"
  "feedparser_parse ex_env (ascii ''B'') = Inl (Raised (ascii ''timed out''))"
  "feedparser_parse ex_env (ascii ''C'') = Inr ex_feedC"
  by (simp_all add: ex_env_def)

lemma ex_utcnow: "utcnow ex_env = ex_now"
  by (simp add: ex_env_def)

lemma ex_time_published_ok:
  "datetime_of ex_time_published = Inr (ex_hour_ago\<lparr>dt_microsecond := 0\<rparr>)"
  by (simp add: datetime_of_def ex_time_published_def datetime_new_def days_in_month_def
      is_leap_def ex_hour_ago_def)

lemma ex_entries_parsed:
  "published_parsed ex_a1 = Some ex_time_published"
  "published_parsed ex_a2 = None" "published_parsed ex_c1 = None"
  by (simp_all add: published_parsed_def ex_a1_def ex_a2_def ex_c1_def no_entry_def)

lemma ex_process_entry:
  "process_entry ex_env k ft ex_a1
     = Inr (make_item ex_env k ft ex_a1 (ex_hour_ago\<lparr>dt_microsecond := 0\<rparr>) True)"
  "process_entry ex_env k ft ex_a2 = Inr (make_item ex_env k ft ex_a2 ex_now False)"
  "process_entry ex_env k ft ex_c1 = Inr (make_item ex_env k ft ex_c1 ex_now False)"
  by (simp_all add: process_entry_def ex_entries_parsed ex_time_published_ok ex_utcnow)

lemma ex_all_news:
  "fetch_run ex_env [ascii ''A'', ascii ''B'', ascii ''C''] =
     \<lparr>all_news = [make_item ex_env 0 (ascii ''Feed A'') ex_a1 (ex_hour_ago\<lparr>dt_microsecond := 0\<rparr>) True,
        make_item ex_env 1 (ascii ''Feed A'') ex_a2 ex_now False,
        make_item ex_env 2 (ascii ''C'') ex_c1 ex_now False],
      reported = [(ascii ''B'', Raised (ascii ''timed out''))],
      visited = 3\<rparr>"
  by (simp add: fetch_run_def strip_ex_urls ex_parse ex_feedA_def ex_feedC_def
      ex_process_entry handle_error_def numeral_2_eq_2 numeral_3_eq_3)

lemma make_item_sel [simp]:
  "n_published (make_item ev k ft e d h) = d"
  "n_has_time (make_item ev k ft e d h) = h"
  "n_image (make_item ev k ft e d h) = resolve_image ev e"
  "n_source (make_item ev k ft e d h) = ft"
  by (simp_all add: make_item_def)

lemma ex_fetch_feeds:
  "fetch_feeds ex_env [ascii ''A'', ascii ''B'', ascii ''C''] =
     [make_item ex_env 1 (ascii ''Feed A'') ex_a2 ex_now False,
      make_item ex_env 2 (ascii ''C'') ex_c1 ex_now False,
      make_item ex_env 0 (ascii ''Feed A'') ex_a1 (ex_hour_ago\<lparr>dt_microsecond := 0\<rparr>) True]"
  by (simp add: fetch_feeds_def ex_all_news sort_published_reverse_def dt_key_def
      ex_now_def ex_hour_ago_def)

section \<open>Timestamps\<close>

lemma published_parsed_None:
  "published_parsed e = None \<longleftrightarrow> e_published_parsed e = None \<and> e_updated_parsed e = None"
  by (simp add: published_parsed_def split: option.splits)

lemma process_entry_undated:
  "published_parsed e = None \<Longrightarrow>
     process_entry ev k ft e = Inr (make_item ev k ft e (utcnow ev) False)"
  by (simp add: process_entry_def)

lemma process_entry_has_time:
  "process_entry ev k ft e = Inr x \<Longrightarrow>
     (n_has_time x \<longleftrightarrow> published_parsed e \<noteq> None)
   \<and> (\<not> n_has_time x \<longrightarrow> n_published x = utcnow ev)"
  by (auto simp: process_entry_def make_item_def split: option.splits sum.splits)

lemma fetch_feeds_set:
  "set (fetch_feeds ev urls) = set (all_news (fetch_run ev urls))"
  by (simp add: fetch_feeds_def sort_published_reverse_def)

lemma undated_in_run:
  "\<forall>x \<in> set (all_news (fetch_run ev urls)). \<not> n_has_time x \<longrightarrow> n_published x = utcnow ev"
  unfolding fetch_run_def
  by (rule fetch_loop_invariant[where P = "\<lambda>x. \<not> n_has_time x \<longrightarrow> n_published x = utcnow ev"])
     (use process_entry_has_time in \<open>auto\<close>)

text \<open>
  Claim C1. An entry with neither \<open>published_parsed\<close> nor \<open>updated_parsed\<close> yields an item
  with \<open>has_time = False\<close> whose \<open>published\<close> is the snapshot \<open>fixed_now\<close> taken once at the
  start of the call (\<open>utcnow ev\<close>), whatever its source and position; an item has
  \<open>has_time = False\<close> only for such an entry; so every item of the result of one call with
  \<open>has_time = False\<close> carries that one snapshot, and any two of them compare equal on
  \<open>published\<close>.
\<close>

theorem undated_entries_share_snapshot:
  "(e_published_parsed e = None \<and> e_updated_parsed e = None \<longrightarrow>
      (\<exists>item. process_entry ev k feed_title e = Inr item
         \<and> n_has_time item = False \<and> n_published item = utcnow ev))
   \<and> (process_entry ev k feed_title e = Inr item \<longrightarrow>
        (n_has_time item = False \<longleftrightarrow> e_published_parsed e = None \<and> e_updated_parsed e = None))
   \<and> (\<forall>x \<in> set (fetch_feeds ev urls). n_has_time x = False \<longrightarrow> n_published x = utcnow ev)
   \<and> (\<forall>x \<in> set (fetch_feeds ev urls). \<forall>y \<in> set (fetch_feeds ev urls).
        n_has_time x = False \<and> n_has_time y = False \<longrightarrow> n_published x = n_published y)"
proof (intro conjI)
  show "e_published_parsed e = None \<and> e_updated_parsed e = None \<longrightarrow>
      (\<exists>item. process_entry ev k feed_title e = Inr item
         \<and> n_has_time item = False \<and> n_published item = utcnow ev)"
    using process_entry_undated[of e ev k feed_title]
    by (simp add: published_parsed_None make_item_def)
  show "process_entry ev k feed_title e = Inr item \<longrightarrow>
        (n_has_time item = False \<longleftrightarrow> e_published_parsed e = None \<and> e_updated_parsed e = None)"
    using process_entry_has_time[of ev k feed_title e item]
    by (auto simp: published_parsed_None)
  show a: "\<forall>x \<in> set (fetch_feeds ev urls). n_has_time x = False \<longrightarrow> n_published x = utcnow ev"
    using undated_in_run[of ev urls] by (simp add: fetch_feeds_set)
  show "\<forall>x \<in> set (fetch_feeds ev urls). \<forall>y \<in> set (fetch_feeds ev urls).
        n_has_time x = False \<and> n_has_time y = False \<longrightarrow> n_published x = n_published y"
    using a by simp
qed


theorem undated_entries_share_snapshot_witness:
  "(\<exists>x y. process_entry ex_env 1 (ascii ''Feed A'') ex_a2 = Inr x
      \<and> process_entry ex_env 2 (ascii ''C'') ex_c1 = Inr y
      \<and> n_has_time x = False \<and> n_has_time y = False
      \<and> n_published x = ex_now \<and> n_published y = ex_now)
   \<and> n_published (fetch_feeds ex_env [ascii ''A'', ascii ''B'', ascii ''C''] ! 0)
     = n_published (fetch_feeds ex_env [ascii ''A'', ascii ''B'', ascii ''C''] ! 1)"
proof -
  have a2: "e_published_parsed ex_a2 = None \<and> e_updated_parsed ex_a2 = None"
    by (simp add: ex_a2_def no_entry_def)
  have c1: "e_published_parsed ex_c1 = None \<and> e_updated_parsed ex_c1 = None"
    by (simp add: ex_c1_def no_entry_def)
  let ?r = "fetch_feeds ex_env [ascii ''A'', ascii ''B'', ascii ''C'']"
  have m: "?r ! 0 \<in> set ?r" "?r ! 1 \<in> set ?r" "n_has_time (?r ! 0) = False"
    "n_has_time (?r ! 1) = False"
    by (simp_all add: ex_fetch_feeds)
  from undated_entries_share_snapshot[of ex_a2 ex_env 1 "ascii ''Feed A''" "ex_item ex_now"
      "[ascii ''A'', ascii ''B'', ascii ''C'']"]
    undated_entries_share_snapshot[of ex_c1 ex_env 2 "ascii ''C''" "ex_item ex_now" "[]"]
    a2 c1 m
  show ?thesis by (auto simp: ex_utcnow)
qed

section \<open>Parsed dates\<close>

lemma datetime_new_Inr:
  "datetime_new y m d hh mm ss = Inr x \<Longrightarrow>
     x = \<lparr>dt_year = y, dt_month = m, dt_day = d, dt_hour = hh, dt_minute = mm,
           dt_second = ss, dt_microsecond = 0\<rparr>"
  by (simp add: datetime_new_def split: if_splits)

lemma process_entry_dated:
  "published_parsed e = Some t \<Longrightarrow> datetime_of t = Inr d \<Longrightarrow>
     process_entry ev k ft e = Inr (make_item ev k ft e d True)"
  by (simp add: process_entry_def)

text \<open>
  Claim C6. When the entry has a parsed published date \<open>t\<close> that the \<open>datetime\<close>
  constructor accepts, the item's \<open>published\<close> is the datetime with exactly the six fields of
  \<open>t\<close> (and microsecond 0) and \<open>has_time\<close> is true, whatever \<open>updated_parsed\<close> holds: the
  published date has strict priority. The parsed updated date is used in the same way only
  when there is no parsed published date. (A parsed date the constructor rejects makes the
  entry raise; no item is built from it.)
\<close>

theorem parsed_date_becomes_published:
  "(e_published_parsed e = Some t \<and> datetime_of t = Inr d \<longrightarrow>
      (\<exists>item. process_entry ev k feed_title e = Inr item \<and> n_has_time item = True
         \<and> n_published item = d))
   \<and> (e_published_parsed e = None \<and> e_updated_parsed e = Some t \<and> datetime_of t = Inr d \<longrightarrow>
      (\<exists>item. process_entry ev k feed_title e = Inr item \<and> n_has_time item = True
         \<and> n_published item = d))
   \<and> (datetime_of t = Inr d \<longrightarrow>
        d = \<lparr>dt_year = tm_year t, dt_month = tm_mon t, dt_day = tm_mday t, dt_hour = tm_hour t,
             dt_minute = tm_min t, dt_second = tm_sec t, dt_microsecond = 0\<rparr>)"
proof (intro conjI impI)
  assume "e_published_parsed e = Some t \<and> datetime_of t = Inr d"
  then have "published_parsed e = Some t" "datetime_of t = Inr d"
    by (simp_all add: published_parsed_def)
  from process_entry_dated[OF this]
  show "\<exists>item. process_entry ev k feed_title e = Inr item \<and> n_has_time item = True
         \<and> n_published item = d"
    by simp
next
  assume "e_published_parsed e = None \<and> e_updated_parsed e = Some t \<and> datetime_of t = Inr d"
  then have "published_parsed e = Some t" "datetime_of t = Inr d"
    by (simp_all add: published_parsed_def)
  from process_entry_dated[OF this]
  show "\<exists>item. process_entry ev k feed_title e = Inr item \<and> n_has_time item = True
         \<and> n_published item = d"
    by simp
next
  assume "datetime_of t = Inr d"
  then show "d = \<lparr>dt_year = tm_year t, dt_month = tm_mon t, dt_day = tm_mday t,
      dt_hour = tm_hour t, dt_minute = tm_min t, dt_second = tm_sec t, dt_microsecond = 0\<rparr>"
    unfolding datetime_of_def by (rule datetime_new_Inr)
qed

theorem parsed_date_becomes_published_witness:
  "e_published_parsed ex_a1 = Some ex_time_published
   \<and> e_updated_parsed ex_a1 = Some ex_time_updated
   \<and> (\<exists>item. process_entry ex_env 0 (ascii ''Feed A'') ex_a1 = Inr item \<and> n_has_time item = True
        \<and> n_published item = \<lparr>dt_year = 2024, dt_month = 2, dt_day = 29, dt_hour = 23,
             dt_minute = 30, dt_second = 0, dt_microsecond = 0\<rparr>)
   \<and> (\<exists>item. process_entry ex_env 0 (ascii ''Feed A'') (ex_a1\<lparr>e_published_parsed := None\<rparr>)
          = Inr item \<and> n_has_time item = True
        \<and> n_published item = \<lparr>dt_year = 2024, dt_month = 3, dt_day = 1, dt_hour = 0,
             dt_minute = 10, dt_second = 0, dt_microsecond = 0\<rparr>)"
proof -
  let ?dp = "\<lparr>dt_year = 2024, dt_month = 2, dt_day = 29, dt_hour = 23,
             dt_minute = 30, dt_second = 0, dt_microsecond = 0\<rparr>"
  let ?du = "\<lparr>dt_year = 2024, dt_month = 3, dt_day = 1, dt_hour = 0,
             dt_minute = 10, dt_second = 0, dt_microsecond = 0\<rparr>"
  have p: "e_published_parsed ex_a1 = Some ex_time_published"
    and u: "e_updated_parsed ex_a1 = Some ex_time_updated"
    by (simp_all add: ex_a1_def no_entry_def)
  have dp: "datetime_of ex_time_published = Inr ?dp"
    by (simp add: ex_time_published_ok ex_hour_ago_def)
  have du: "datetime_of ex_time_updated = Inr ?du"
    by (simp add: datetime_of_def ex_time_updated_def datetime_new_def days_in_month_def
        DAYS_IN_MONTH_def is_leap_def)
  have u': "e_published_parsed (ex_a1\<lparr>e_published_parsed := None\<rparr>) = None
      \<and> e_updated_parsed (ex_a1\<lparr>e_published_parsed := None\<rparr>) = Some ex_time_updated"
    using u by simp
  from parsed_date_becomes_published[of ex_a1 ex_time_published ?dp ex_env 0 "ascii ''Feed A''"]
    parsed_date_becomes_published[of "ex_a1\<lparr>e_published_parsed := None\<rparr>" ex_time_updated ?du
      ex_env 0 "ascii ''Feed A''"]
    p u u' dp du
  show ?thesis by simp
qed

section \<open>Order of the aggregate\<close>

text \<open>
  Claim C7. The list returned by \<open>fetch_feeds\<close> is in descending order of \<open>published\<close>,
  and the sort is stable: for every instant \<open>d\<close>, the items published at \<open>d\<close> appear in the
  result in the order in which they were appended to \<open>all_news\<close>, the order in which the
  sources and their entries were met.
\<close>

theorem aggregate_sorted_stable:
  "published_descending (fetch_feeds ev urls)
   \<and> filter (\<lambda>x. n_published x = d) (fetch_feeds ev urls)
       = filter (\<lambda>x. n_published x = d) (all_news (fetch_run ev urls))"
  unfolding fetch_feeds_def published_descending_def
  by (simp only: sorted_sort_published_reverse stable_sort_published_reverse simp_thms)

theorem aggregate_sorted_stable_witness:
  "published_descending (fetch_feeds ex_env [ascii ''A'', ascii ''B'', ascii ''C''])
   \<and> map n_source (filter (\<lambda>x. n_published x = ex_now)
        (fetch_feeds ex_env [ascii ''A'', ascii ''B'', ascii ''C'']))
       = [ascii ''Feed A'', ascii ''C'']
   \<and> map n_source (all_news (fetch_run ex_env [ascii ''A'', ascii ''B'', ascii ''C'']))
       = [ascii ''Feed A'', ascii ''Feed A'', ascii ''C'']"
proof -
  have "map n_source (filter (\<lambda>x. n_published x = ex_now)
      (all_news (fetch_run ex_env [ascii ''A'', ascii ''B'', ascii ''C''])))
       = [ascii ''Feed A'', ascii ''C'']"
    by (simp add: ex_all_news ex_now_def ex_hour_ago_def)
  moreover have "map n_source (all_news (fetch_run ex_env [ascii ''A'', ascii ''B'', ascii ''C'']))
       = [ascii ''Feed A'', ascii ''Feed A'', ascii ''C'']"
    by (simp add: ex_all_news)
  ultimately show ?thesis
    using aggregate_sorted_stable[of ex_env "[ascii ''A'', ascii ''B'', ascii ''C'']" ex_now]
    by simp
qed

lemma ex_all_news_twice:
  "all_news (fetch_run ex_env [ascii ''A'', ascii ''A'']) =
      [make_item ex_env 0 (ascii ''Feed A'') ex_a1 (ex_hour_ago\<lparr>dt_microsecond := 0\<rparr>) True,
       make_item ex_env 1 (ascii ''Feed A'') ex_a2 ex_now False,
       make_item ex_env 2 (ascii ''Feed A'') ex_a1 (ex_hour_ago\<lparr>dt_microsecond := 0\<rparr>) True,
       make_item ex_env 3 (ascii ''Feed A'') ex_a2 ex_now False]"
  by (simp add: fetch_run_def strip_ex_urls ex_parse ex_feedA_def ex_process_entry
      handle_error_def numeral_2_eq_2 numeral_3_eq_3)

lemma ex_same_item:
  "make_item ex_env k ft ex_a2 d h = make_item ex_env k' ft ex_a2 d h"
  by (simp add: make_item_def raw_published_def py_or_def ex_a2_def no_entry_def)

lemma make_item_flag_neq:
  "make_item ev k ft e d True \<noteq> make_item ev' k' ft' e' d' False"
  by (metis make_item_sel(2))

theorem aggregate_not_deduplicated_counterexample:
  "\<not> distinct (fetch_feeds ex_env [ascii ''A'', ascii ''A''])"
proof -
  have "\<not> distinct (all_news (fetch_run ex_env [ascii ''A'', ascii ''A'']))"
    using ex_same_item[of "Suc 0" "ascii ''Feed A''" ex_now False 3]
    by (simp add: ex_all_news_twice)
  then show ?thesis
    by (simp add: fetch_feeds_def sort_published_reverse_def)
qed

text \<open>
  Claim C4, as amended. The result is in descending order of \<open>published\<close> and holds every
  collected item with its multiplicity: it is a permutation of \<open>all_news\<close>, nothing is
  removed, so an item collected twice appears twice. The counterexample above is a source
  listed twice: the item of its second entry, whose date string comes from the feed, occurs
  twice in the result.
\<close>

theorem aggregate_keeps_every_item:
  "published_descending (fetch_feeds ev urls)
   \<and> mset (fetch_feeds ev urls) = mset (all_news (fetch_run ev urls))"
  unfolding fetch_feeds_def published_descending_def
  by (simp only: sorted_sort_published_reverse mset_sort_published_reverse simp_thms)

theorem aggregate_keeps_every_item_witness:
  "published_descending (fetch_feeds ex_env [ascii ''A'', ascii ''A''])
   \<and> length (fetch_feeds ex_env [ascii ''A'', ascii ''A'']) = 4
   \<and> count (mset (fetch_feeds ex_env [ascii ''A'', ascii ''A'']))
        (make_item ex_env 1 (ascii ''Feed A'') ex_a2 ex_now False) = 2"
proof -
  let ?x = "make_item ex_env 1 (ascii ''Feed A'') ex_a2 ex_now False"
  have "count (mset (all_news (fetch_run ex_env [ascii ''A'', ascii ''A'']))) ?x = 2"
    using ex_same_item[of 3 "ascii ''Feed A''" ex_now False 1]
    by (simp add: ex_all_news_twice make_item_flag_neq)
  moreover have "size (mset (all_news (fetch_run ex_env [ascii ''A'', ascii ''A'']))) = 4"
    by (simp add: ex_all_news_twice)
  ultimately show ?thesis
    using aggregate_keeps_every_item[of ex_env "[ascii ''A'', ascii ''A'']"]
    by (metis size_mset)
qed

section \<open>Isolation of a failing source\<close>

lemma three_sources_run:
  assumes nb: "strip a \<noteq> []" "strip b \<noteq> []" "strip c \<noteq> []"
    and pa: "feedparser_parse ev a = Inr fa" and ea: "f_entries fa = [a1, a2]"
    and oka: "\<not> entry_raises a1" "\<not> entry_raises a2"
    and pb: "feedparser_parse ev b = Inl err"
    and pc: "feedparser_parse ev c = Inr fc" and ec: "f_entries fc = [c1]"
    and okc: "\<not> entry_raises c1"
  shows "length (all_news (fetch_run ev [a, b, c])) = 3"
    and "reported (fetch_run ev [a, b, c]) = [(b, err)]"
proof -
  let ?s0 = "\<lparr>all_news = [], reported = [], visited = 0\<rparr>"
  let ?fta = "case f_title fa of None \<Rightarrow> a | Some t \<Rightarrow> t"
  let ?ftc = "case f_title fc of None \<Rightarrow> c | Some t \<Rightarrow> t"
  let ?ra = "process_entries ev ?fta [a1, a2] ?s0"
  have ra: "snd ?ra = None" "length (all_news (fst ?ra)) = 2"
    using process_entries_no_raise[of "[a1, a2]" ev ?fta ?s0] oka by simp_all
  have rra: "reported (fst ?ra) = []"
    using process_entries_reported[of ev ?fta "[a1, a2]" ?s0] by simp
  let ?s1 = "handle_error a ?ra"
  have s1: "?s1 = fst ?ra" using ra(1) by (simp add: handle_error_def)
  let ?s2 = "handle_error b (?s1, Some err)"
  have s2: "all_news ?s2 = all_news (fst ?ra)" "reported ?s2 = [(b, err)]"
    using s1 rra by (simp_all add: handle_error_def)
  let ?rc = "process_entries ev ?ftc [c1] ?s2"
  have rc: "snd ?rc = None" "length (all_news (fst ?rc)) = 3"
    using process_entries_no_raise[of "[c1]" ev ?ftc ?s2] okc s2(1) ra(2) by simp_all
  have rrc: "reported (fst ?rc) = [(b, err)]"
    using process_entries_reported[of ev ?ftc "[c1]" ?s2] s2(2) by simp
  have s3: "handle_error c ?rc = fst ?rc" using rc(1) by (simp add: handle_error_def)
  have run: "fetch_run ev [a, b, c] = fst ?rc"
    unfolding fetch_run_def using nb pa pb pc ea ec s3 by simp
  show "length (all_news (fetch_run ev [a, b, c])) = 3" using run rc(2) by simp
  show "reported (fetch_run ev [a, b, c]) = [(b, err)]" using run rrc by simp
qed

text \<open>
  Claim C2. When \<open>feedparser.parse\<close> raises for a (non-blank) source URL \<open>b\<close>, the
  exception is caught and reported with that URL, the source adds no item, and the run goes
  on: the collected list, and so the returned list, is the one of the same run without
  \<open>b\<close>, so the items of the other sources are neither removed nor reordered.
  \<open>fetch_feeds\<close> returns a list in every case; no exception reaches the caller. Concretely,
  for sources \<open>a\<close> with two entries that do not raise, \<open>b\<close> that fails to load and \<open>c\<close>
  with one entry that does not raise, the result has exactly three items, in descending order
  of \<open>published\<close>, and the one report is that of \<open>b\<close>.
\<close>

theorem failing_source_is_isolated:
  "(feedparser_parse ev b = Inl err \<and> strip b \<noteq> [] \<longrightarrow>
      all_news (fetch_run ev (us @ b # vs)) = all_news (fetch_run ev (us @ vs))
      \<and> fetch_feeds ev (us @ b # vs) = fetch_feeds ev (us @ vs)
      \<and> (b, err) \<in> set (fetch_errors ev (us @ b # vs)))
   \<and> (strip a \<noteq> [] \<and> strip b \<noteq> [] \<and> strip c \<noteq> []
       \<and> feedparser_parse ev a = Inr fa \<and> f_entries fa = [a1, a2]
       \<and> \<not> entry_raises a1 \<and> \<not> entry_raises a2
       \<and> feedparser_parse ev b = Inl err
       \<and> feedparser_parse ev c = Inr fc \<and> f_entries fc = [c1] \<and> \<not> entry_raises c1 \<longrightarrow>
      length (fetch_feeds ev [a, b, c]) = 3
      \<and> published_descending (fetch_feeds ev [a, b, c])
      \<and> fetch_errors ev [a, b, c] = [(b, err)])"
proof (intro conjI impI)
  assume h: "feedparser_parse ev b = Inl err \<and> strip b \<noteq> []"
  then show n: "all_news (fetch_run ev (us @ b # vs)) = all_news (fetch_run ev (us @ vs))"
    unfolding fetch_run_def using failing_source_skipped by blast
  show "fetch_feeds ev (us @ b # vs) = fetch_feeds ev (us @ vs)"
    unfolding fetch_feeds_def by (simp only: n)
  show "(b, err) \<in> set (fetch_errors ev (us @ b # vs))"
    unfolding fetch_errors_def fetch_run_def using h failing_source_reported by blast
next
  assume h: "strip a \<noteq> [] \<and> strip b \<noteq> [] \<and> strip c \<noteq> []
       \<and> feedparser_parse ev a = Inr fa \<and> f_entries fa = [a1, a2]
       \<and> \<not> entry_raises a1 \<and> \<not> entry_raises a2
       \<and> feedparser_parse ev b = Inl err
       \<and> feedparser_parse ev c = Inr fc \<and> f_entries fc = [c1] \<and> \<not> entry_raises c1"
  then have "length (all_news (fetch_run ev [a, b, c])) = 3"
    using three_sources_run(1)[of a b c ev fa a1 a2 err fc c1] by blast
  then show "length (fetch_feeds ev [a, b, c]) = 3"
    by (simp add: fetch_feeds_def sort_published_reverse_def)
  show "published_descending (fetch_feeds ev [a, b, c])"
    unfolding fetch_feeds_def published_descending_def by (rule sorted_sort_published_reverse)
  show "fetch_errors ev [a, b, c] = [(b, err)]"
    unfolding fetch_errors_def
    using h three_sources_run(2)[of a b c ev fa a1 a2 err fc c1] by blast
qed

lemma ex_entries_ok:
  "\<not> entry_raises ex_a1" "\<not> entry_raises ex_a2" "\<not> entry_raises ex_c1"
  by (simp_all add: entry_raises_def ex_entries_parsed ex_time_published_ok)

theorem failing_source_is_isolated_witness:
  "fetch_feeds ex_env [ascii ''A'', ascii ''B'', ascii ''C'']
     = fetch_feeds ex_env [ascii ''A'', ascii ''C'']
   \<and> length (fetch_feeds ex_env [ascii ''A'', ascii ''B'', ascii ''C'']) = 3
   \<and> published_descending (fetch_feeds ex_env [ascii ''A'', ascii ''B'', ascii ''C''])
   \<and> fetch_errors ex_env [ascii ''A'', ascii ''B'', ascii ''C'']
       = [(ascii ''B'', Raised (ascii ''timed out''))]"
proof -
  note t = failing_source_is_isolated[of ex_env "ascii ''B''" "Raised (ascii ''timed out'')"
      "[ascii ''A'']" "[ascii ''C'']" "ascii ''A''" "ascii ''C''" ex_feedA ex_a1 ex_a2
      ex_feedC ex_c1]
  have h1: "feedparser_parse ex_env (ascii ''B'') = Inl (Raised (ascii ''timed out''))
      \<and> strip (ascii ''B'') \<noteq> []"
    by (simp add: ex_parse strip_ex_urls)
  have h2: "strip (ascii ''A'') \<noteq> [] \<and> strip (ascii ''B'') \<noteq> [] \<and> strip (ascii ''C'') \<noteq> []
       \<and> feedparser_parse ex_env (ascii ''A'') = Inr ex_feedA \<and> f_entries ex_feedA = [ex_a1, ex_a2]
       \<and> \<not> entry_raises ex_a1 \<and> \<not> entry_raises ex_a2
       \<and> feedparser_parse ex_env (ascii ''B'') = Inl (Raised (ascii ''timed out''))
       \<and> feedparser_parse ex_env (ascii ''C'') = Inr ex_feedC \<and> f_entries ex_feedC = [ex_c1]
       \<and> \<not> entry_raises ex_c1"
    by (simp add: ex_parse strip_ex_urls ex_entries_ok ex_feedA_def ex_feedC_def)
  from t h1 have "fetch_feeds ex_env ([ascii ''A''] @ ascii ''B'' # [ascii ''C''])
      = fetch_feeds ex_env ([ascii ''A''] @ [ascii ''C''])"
    by blast
  then have a: "fetch_feeds ex_env [ascii ''A'', ascii ''B'', ascii ''C'']
     = fetch_feeds ex_env [ascii ''A'', ascii ''C'']"
    by simp
  from t h2 have b: "length (fetch_feeds ex_env [ascii ''A'', ascii ''B'', ascii ''C'']) = 3
      \<and> published_descending (fetch_feeds ex_env [ascii ''A'', ascii ''B'', ascii ''C''])
      \<and> fetch_errors ex_env [ascii ''A'', ascii ''B'', ascii ''C'']
          = [(ascii ''B'', Raised (ascii ''timed out''))]"
    by blast
  from a b show ?thesis by blast
qed

section \<open>The recency window\<close>

text \<open>
  Claim C5. For every item list, reference instant \<open>T\<close> and window of \<open>W\<close> seconds, the
  filter keeps exactly the items with \<open>0 \<le> T - published \<le> W\<close> (the difference of the two
  instants, here in microseconds), in their input order and unchanged: the result is the
  sublist of the input selected by that test, so an item dated after \<open>T\<close> is dropped, not
  clamped. The script applies it with \<open>W = 7200\<close>: an item published one hour before \<open>T\<close> is
  kept, one published three hours before \<open>T\<close> and one published ten minutes after \<open>T\<close> are
  dropped.
\<close>

theorem recency_window:
  "recency_filter T W items =
     filter (\<lambda>item. 0 \<le> instant_us T - instant_us (n_published item)
                \<and> instant_us T - instant_us (n_published item) \<le> W * 1000000) items
   \<and> subseq (recency_filter T W items) items
   \<and> recent_news T items = recency_filter T 7200 items
   \<and> (item \<in> set items \<and> instant_us T - instant_us (n_published item) = 3600 * 1000000
        \<longrightarrow> item \<in> set (recent_news T items))
   \<and> (instant_us T - instant_us (n_published item) = 3 * 3600 * 1000000
        \<longrightarrow> item \<notin> set (recent_news T items))
   \<and> (instant_us (n_published item) - instant_us T = 600 * 1000000
        \<longrightarrow> item \<notin> set (recent_news T items))"
proof (intro conjI impI)
  show "recency_filter T W items =
     filter (\<lambda>item. 0 \<le> instant_us T - instant_us (n_published item)
                \<and> instant_us T - instant_us (n_published item) \<le> W * 1000000) items"
    by (rule recency_filter_eq)
  show "subseq (recency_filter T W items) items"
    by (simp add: recency_filter_def)
  show "recent_news T items = recency_filter T 7200 items"
    by (simp add: recent_news_def)
next
  assume "item \<in> set items \<and> instant_us T - instant_us (n_published item) = 3600 * 1000000"
  then show "item \<in> set (recent_news T items)"
    by (simp add: recent_news_def recency_filter_eq)
next
  assume "instant_us T - instant_us (n_published item) = 3 * 3600 * 1000000"
  then show "item \<notin> set (recent_news T items)"
    by (simp add: recent_news_def recency_filter_eq)
next
  assume "instant_us (n_published item) - instant_us T = 600 * 1000000"
  then have "instant_us T - instant_us (n_published item) < 0" by simp
  then show "item \<notin> set (recent_news T items)"
    by (simp add: recent_news_def recency_filter_eq)
qed

lemma ex_instants:
  "instant_us ex_now = 63844936200123456"
  "instant_us ex_hour_ago = 63844932600123456"
  "instant_us ex_three_hours_ago = 63844925400123456"
  "instant_us ex_in_ten_minutes = 63844936800123456"
  by (simp_all add: instant_us_def ex_now_def ex_hour_ago_def ex_three_hours_ago_def
      ex_in_ten_minutes_def toordinal_def days_before_year_def days_before_month_def
      DAYS_BEFORE_MONTH_def is_leap_def)

theorem recency_window_witness:
  "recent_news ex_now [ex_item ex_hour_ago, ex_item ex_three_hours_ago, ex_item ex_in_ten_minutes]
     = [ex_item ex_hour_ago]
   \<and> ex_item ex_three_hours_ago \<notin> set (recent_news ex_now
        [ex_item ex_hour_ago, ex_item ex_three_hours_ago, ex_item ex_in_ten_minutes])
   \<and> ex_item ex_in_ten_minutes \<notin> set (recent_news ex_now
        [ex_item ex_hour_ago, ex_item ex_three_hours_ago, ex_item ex_in_ten_minutes])"
proof -
  let ?items = "[ex_item ex_hour_ago, ex_item ex_three_hours_ago, ex_item ex_in_ten_minutes]"
  have p: "n_published (ex_item d) = d" for d
    by (simp add: ex_item_def)
  have "recent_news ex_now ?items =
     filter (\<lambda>item. 0 \<le> instant_us ex_now - instant_us (n_published item)
                \<and> instant_us ex_now - instant_us (n_published item) \<le> 7200 * 1000000) ?items"
    using recency_window[of ex_now 7200 ?items] by simp
  then have a: "recent_news ex_now ?items = [ex_item ex_hour_ago]"
    by (simp add: p ex_instants)
  have h2: "instant_us ex_now - instant_us (n_published (ex_item ex_three_hours_ago))
      = 3 * 3600 * 1000000"
    by (simp add: p ex_instants)
  have b: "ex_item ex_three_hours_ago \<notin> set (recent_news ex_now ?items)"
    using recency_window[of ex_now 7200 ?items "ex_item ex_three_hours_ago"] h2 by blast
  have h3: "instant_us (n_published (ex_item ex_in_ten_minutes)) - instant_us ex_now
      = 600 * 1000000"
    by (simp add: p ex_instants)
  have c: "ex_item ex_in_ten_minutes \<notin> set (recent_news ex_now ?items)"
    using recency_window[of ex_now 7200 ?items "ex_item ex_in_ten_minutes"] h3 by blast
  from a b c show ?thesis by blast
qed

section \<open>The image strategy chain\<close>

lemma content_to_parse_eq:
  "content_to_parse e = (case e_summary e of None \<Rightarrow> [] | Some s \<Rightarrow> s)
     @ (case e_content e of None \<Rightarrow> [] | Some cs \<Rightarrow> concat (map c_value cs))"
proof -
  have f: "foldl (\<lambda>acc c. acc @ c_value c) a cs = a @ concat (map c_value cs)" for a cs
    by (induction cs arbitrary: a) simp_all
  show ?thesis
    by (simp add: content_to_parse_def Let_def f split: option.splits)
qed

lemma media_content_step_eq:
  "media_content_step e None =
     (case e_media_content e of
        None \<Rightarrow> None
      | Some ms \<Rightarrow> (case find is_image_media ms of None \<Rightarrow> None | Some m \<Rightarrow> m_url m))"
  by (simp add: media_content_step_def scan_media_find split: option.splits)

lemma media_thumbnail_step_eq:
  "media_thumbnail_step e None =
     (case e_media_thumbnail e of None \<Rightarrow> None | Some [] \<Rightarrow> None | Some (t # ts) \<Rightarrow> t_url t)"
  by (simp add: media_thumbnail_step_def split: option.splits list.splits)

lemma enclosures_step_eq:
  "enclosures_step e None =
     (case e_enclosures e of
        None \<Rightarrow> None
      | Some xs \<Rightarrow> (case find is_image_enclosure xs of None \<Rightarrow> None | Some x \<Rightarrow> enc_href x))"
  by (simp add: enclosures_step_def scan_enclosures_find split: option.splits)

lemma links_step_eq:
  "links_step e None =
     (case e_links e of
        None \<Rightarrow> None
      | Some ls \<Rightarrow> (case find is_image_link ls of None \<Rightarrow> None | Some l \<Rightarrow> l_href l))"
  by (simp add: links_step_def scan_links_find split: option.splits)

lemma html_step_eq:
  "html_step ev e None =
     (if content_to_parse e = [] then None
      else case BeautifulSoup ev (content_to_parse e) of
             Inl err \<Rightarrow> None
           | Inr soup \<Rightarrow>
               (case find (\<lambda>el. el_name el = ascii ''img'') soup of
                  None \<Rightarrow> None
                | Some img_tag \<Rightarrow>
                    (if truthy (map_of (el_attrs img_tag) (ascii ''src''))
                     then map_of (el_attrs img_tag) (ascii ''src'') else None)))"
  by (simp add: html_step_def soup_find_def tag_get_def split: sum.splits option.splits)

lemma resolve_first:
  "truthy (media_content_step e None) \<Longrightarrow> resolve_image ev e = media_content_step e None"
  using resolve_chain[of ev e] by simp

lemma is_image_media_iff:
  "is_image_media m \<longleftrightarrow> m_medium m = Some (ascii ''image'')
     \<or> (\<exists>t. m_type m = Some t \<and> prefix (ascii ''image/'') t)"
proof -
  have "startswith s p \<longleftrightarrow> prefix p s" for s p :: pystr
    unfolding startswith_def prefix_def by (metis append_eq_conv_conj append_take_drop_id)
  then show ?thesis
    by (auto simp: is_image_media_def split: option.splits)
qed

lemma startswith_prefix: "startswith s p \<longleftrightarrow> prefix p s"
  unfolding startswith_def prefix_def by (metis append_eq_conv_conj append_take_drop_id)

lemma is_image_enclosure_iff:
  "is_image_enclosure x \<longleftrightarrow> (\<exists>t. enc_type x = Some t \<and> prefix (ascii ''image/'') t)"
  by (auto simp: is_image_enclosure_def startswith_prefix split: option.splits)

lemma is_image_link_iff:
  "is_image_link l \<longleftrightarrow> (\<exists>t. l_type l = Some t \<and> prefix (ascii ''image/'') t)"
  by (auto simp: is_image_link_def startswith_prefix split: option.splits)

text \<open>
  Claim C3. Image resolution runs five strategies in a fixed order, and the first one that
  yields a usable URL (one that passes the code's own test \<open>if not image_url\<close>: present and
  non-empty) is the result; when none does, the result is absent in that same sense. The
  strategies are, taken alone: (1) the \<open>url\<close> of the first media-content descriptor whose
  medium is \<open>image\<close> or whose type starts with \<open>image/\<close>; (2) the \<open>url\<close> of the first
  media-thumbnail, with no type check; (3) the \<open>href\<close> of the first enclosure whose type
  starts with \<open>image/\<close>; (4) the \<open>href\<close> of the first link whose type starts with
  \<open>image/\<close>; (5) the \<open>src\<close> of the first \<open>img\<close> element of the summary followed by the
  content bodies, parsed as HTML. In particular, when the first media-content image
  descriptor carries a URL, that URL is returned whatever the summary HTML holds.
\<close>

theorem image_strategy_chain:
  "(truthy (media_content_step e None) \<longrightarrow> resolve_image ev e = media_content_step e None)
   \<and> (\<not> truthy (media_content_step e None) \<and> truthy (media_thumbnail_step e None) \<longrightarrow>
        resolve_image ev e = media_thumbnail_step e None)
   \<and> (\<not> truthy (media_content_step e None) \<and> \<not> truthy (media_thumbnail_step e None)
        \<and> truthy (enclosures_step e None) \<longrightarrow> resolve_image ev e = enclosures_step e None)
   \<and> (\<not> truthy (media_content_step e None) \<and> \<not> truthy (media_thumbnail_step e None)
        \<and> \<not> truthy (enclosures_step e None) \<and> truthy (links_step e None) \<longrightarrow>
        resolve_image ev e = links_step e None)
   \<and> (\<not> truthy (media_content_step e None) \<and> \<not> truthy (media_thumbnail_step e None)
        \<and> \<not> truthy (enclosures_step e None) \<and> \<not> truthy (links_step e None)
        \<and> truthy (html_step ev e None) \<longrightarrow> resolve_image ev e = html_step ev e None)
   \<and> (\<not> truthy (media_content_step e None) \<and> \<not> truthy (media_thumbnail_step e None)
        \<and> \<not> truthy (enclosures_step e None) \<and> \<not> truthy (links_step e None)
        \<and> \<not> truthy (html_step ev e None) \<longrightarrow> \<not> truthy (resolve_image ev e))
   \<and> media_content_step e None =
        (case e_media_content e of
           None \<Rightarrow> None
         | Some ms \<Rightarrow> (case find is_image_media ms of None \<Rightarrow> None | Some m \<Rightarrow> m_url m))
   \<and> (is_image_media m \<longleftrightarrow> m_medium m = Some (ascii ''image'')
        \<or> (\<exists>t. m_type m = Some t \<and> prefix (ascii ''image/'') t))
   \<and> media_thumbnail_step e None =
        (case e_media_thumbnail e of None \<Rightarrow> None | Some [] \<Rightarrow> None | Some (t # ts) \<Rightarrow> t_url t)
   \<and> enclosures_step e None =
        (case e_enclosures e of
           None \<Rightarrow> None
         | Some xs \<Rightarrow> (case find is_image_enclosure xs of None \<Rightarrow> None | Some x \<Rightarrow> enc_href x))
   \<and> (is_image_enclosure enc \<longleftrightarrow>
        (\<exists>t. enc_type enc = Some t \<and> prefix (ascii ''image/'') t))
   \<and> links_step e None =
        (case e_links e of
           None \<Rightarrow> None
         | Some ls \<Rightarrow> (case find is_image_link ls of None \<Rightarrow> None | Some l \<Rightarrow> l_href l))
   \<and> (is_image_link lnk \<longleftrightarrow>
        (\<exists>t. l_type lnk = Some t \<and> prefix (ascii ''image/'') t))
   \<and> html_step ev e None =
        (if content_to_parse e = [] then None
         else case BeautifulSoup ev (content_to_parse e) of
                Inl err \<Rightarrow> None
              | Inr soup \<Rightarrow>
                  (case find (\<lambda>el. el_name el = ascii ''img'') soup of
                     None \<Rightarrow> None
                   | Some img_tag \<Rightarrow>
                       (if truthy (map_of (el_attrs img_tag) (ascii ''src''))
                        then map_of (el_attrs img_tag) (ascii ''src'') else None)))
   \<and> content_to_parse e = (case e_summary e of None \<Rightarrow> [] | Some s \<Rightarrow> s)
        @ (case e_content e of None \<Rightarrow> [] | Some cs \<Rightarrow> concat (map c_value cs))
   \<and> (e_media_content e = Some ms \<and> find is_image_media ms = Some m' \<and> truthy (m_url m') \<longrightarrow>
        resolve_image ev e = m_url m')"
proof (intro conjI impI)
  show "media_content_step e None =
        (case e_media_content e of
           None \<Rightarrow> None
         | Some ms \<Rightarrow> (case find is_image_media ms of None \<Rightarrow> None | Some m \<Rightarrow> m_url m))"
    by (rule media_content_step_eq)
  show "is_image_media m \<longleftrightarrow> m_medium m = Some (ascii ''image'')
        \<or> (\<exists>t. m_type m = Some t \<and> prefix (ascii ''image/'') t)"
    by (rule is_image_media_iff)
  show "media_thumbnail_step e None =
        (case e_media_thumbnail e of None \<Rightarrow> None | Some [] \<Rightarrow> None | Some (t # ts) \<Rightarrow> t_url t)"
    by (rule media_thumbnail_step_eq)
  show "enclosures_step e None =
        (case e_enclosures e of
           None \<Rightarrow> None
         | Some xs \<Rightarrow> (case find is_image_enclosure xs of None \<Rightarrow> None | Some x \<Rightarrow> enc_href x))"
    by (rule enclosures_step_eq)
  show "is_image_enclosure enc \<longleftrightarrow>
        (\<exists>t. enc_type enc = Some t \<and> prefix (ascii ''image/'') t)"
    by (rule is_image_enclosure_iff)
  show "is_image_link lnk \<longleftrightarrow>
        (\<exists>t. l_type lnk = Some t \<and> prefix (ascii ''image/'') t)"
    by (rule is_image_link_iff)
  show "links_step e None =
        (case e_links e of
           None \<Rightarrow> None
         | Some ls \<Rightarrow> (case find is_image_link ls of None \<Rightarrow> None | Some l \<Rightarrow> l_href l))"
    by (rule links_step_eq)
  show "html_step ev e None =
        (if content_to_parse e = [] then None
         else case BeautifulSoup ev (content_to_parse e) of
                Inl err \<Rightarrow> None
              | Inr soup \<Rightarrow>
                  (case find (\<lambda>el. el_name el = ascii ''img'') soup of
                     None \<Rightarrow> None
                   | Some img_tag \<Rightarrow>
                       (if truthy (map_of (el_attrs img_tag) (ascii ''src''))
                        then map_of (el_attrs img_tag) (ascii ''src'') else None)))"
    by (rule html_step_eq)
  show "content_to_parse e = (case e_summary e of None \<Rightarrow> [] | Some s \<Rightarrow> s)
        @ (case e_content e of None \<Rightarrow> [] | Some cs \<Rightarrow> concat (map c_value cs))"
    by (rule content_to_parse_eq)
next
  assume "truthy (media_content_step e None)"
  then show "resolve_image ev e = media_content_step e None" by (rule resolve_first)
next
  assume "\<not> truthy (media_content_step e None) \<and> truthy (media_thumbnail_step e None)"
  then show "resolve_image ev e = media_thumbnail_step e None"
    using resolve_chain[of ev e] by simp
next
  assume "\<not> truthy (media_content_step e None) \<and> \<not> truthy (media_thumbnail_step e None)
        \<and> truthy (enclosures_step e None)"
  then show "resolve_image ev e = enclosures_step e None"
    using resolve_chain[of ev e] by simp
next
  assume "\<not> truthy (media_content_step e None) \<and> \<not> truthy (media_thumbnail_step e None)
        \<and> \<not> truthy (enclosures_step e None) \<and> truthy (links_step e None)"
  then show "resolve_image ev e = links_step e None"
    using resolve_chain[of ev e] by simp
next
  assume "\<not> truthy (media_content_step e None) \<and> \<not> truthy (media_thumbnail_step e None)
        \<and> \<not> truthy (enclosures_step e None) \<and> \<not> truthy (links_step e None)
        \<and> truthy (html_step ev e None)"
  then show "resolve_image ev e = html_step ev e None"
    using resolve_chain[of ev e] by simp
next
  assume "\<not> truthy (media_content_step e None) \<and> \<not> truthy (media_thumbnail_step e None)
        \<and> \<not> truthy (enclosures_step e None) \<and> \<not> truthy (links_step e None)
        \<and> \<not> truthy (html_step ev e None)"
  then show "\<not> truthy (resolve_image ev e)"
    using resolve_none[of e ev] by blast
next
  assume h: "e_media_content e = Some ms \<and> find is_image_media ms = Some m' \<and> truthy (m_url m')"
  then have "media_content_step e None = m_url m'"
    by (simp add: media_content_step_eq)
  then show "resolve_image ev e = m_url m'"
    using h resolve_first[of e ev] by simp
qed

lemma ex_html_nonempty: "ex_html \<noteq> []"
  by (simp add: ex_html_def ascii_def)

lemma ex_a2_html_step:
  "html_step ex_env ex_a2 None = Some (ascii ''http://x/a.jpg'')"
  by (simp add: html_step_def content_to_parse_def ex_a2_def no_entry_def ex_env_def
      ex_html_nonempty soup_find_def tag_get_def ex_soup_def)

lemma ex_a2_no_descriptors:
  "media_content_step ex_a2 None = None" "media_thumbnail_step ex_a2 None = None"
  "enclosures_step ex_a2 None = None" "links_step ex_a2 None = None"
  by (simp_all add: media_content_step_def media_thumbnail_step_def enclosures_step_def
      links_step_def ex_a2_def no_entry_def)

theorem image_strategy_chain_witness:
  "resolve_image ex_env ex_a1 = Some (ascii ''http://a/m.png'')
   \<and> e_summary ex_a1 = Some ex_html
   \<and> resolve_image ex_env ex_a2 = Some (ascii ''http://x/a.jpg'')
   \<and> resolve_image ex_env (no_entry\<lparr>e_enclosures :=
         Some [\<lparr>enc_type = Some (ascii ''audio/mpeg''), enc_href = Some (ascii ''http://a/ep.mp3'')\<rparr>,
               \<lparr>enc_type = Some (ascii ''image/jpeg''), enc_href = Some (ascii ''http://a/e.jpg'')\<rparr>]\<rparr>)
       = Some (ascii ''http://a/e.jpg'')
   \<and> resolve_image ex_env (no_entry\<lparr>e_links :=
         Some [\<lparr>l_rel = Some (ascii ''enclosure''), l_type = Some (ascii ''audio/mpeg''),
                 l_href = Some (ascii ''http://a/ep.mp3'')\<rparr>,
               \<lparr>l_rel = None, l_type = Some (ascii ''image/gif''),
                 l_href = Some (ascii ''http://a/l.gif'')\<rparr>]\<rparr>)
       = Some (ascii ''http://a/l.gif'')"
proof -
  let ?video = "\<lparr>m_medium = Some (ascii ''video''), m_type = None,
         m_url = Some (ascii ''http://a/v.mp4'')\<rparr>"
  let ?png = "\<lparr>m_medium = None, m_type = Some (ascii ''image/png''),
         m_url = Some (ascii ''http://a/m.png'')\<rparr>"
  let ?mp3 = "\<lparr>enc_type = Some (ascii ''audio/mpeg''), enc_href = Some (ascii ''http://a/ep.mp3'')\<rparr>"
  let ?jpg = "\<lparr>enc_type = Some (ascii ''image/jpeg''), enc_href = Some (ascii ''http://a/e.jpg'')\<rparr>"
  let ?lmp3 = "\<lparr>l_rel = Some (ascii ''enclosure''), l_type = Some (ascii ''audio/mpeg''),
         l_href = Some (ascii ''http://a/ep.mp3'')\<rparr>"
  let ?gif = "\<lparr>l_rel = None, l_type = Some (ascii ''image/gif''),
         l_href = Some (ascii ''http://a/l.gif'')\<rparr>"
  let ?ee = "no_entry\<lparr>e_enclosures := Some [?mp3, ?jpg]\<rparr>"
  let ?el = "no_entry\<lparr>e_links := Some [?lmp3, ?gif]\<rparr>"
  have m: "e_media_content ex_a1 = Some [?video, ?png]" and s: "e_summary ex_a1 = Some ex_html"
    by (simp_all add: ex_a1_def no_entry_def)
  have f: "find is_image_media [?video, ?png] = Some ?png"
    by (simp add: is_image_media_def)
  have u: "truthy (m_url ?png)" by simp
  have a: "resolve_image ex_env ex_a1 = Some (ascii ''http://a/m.png'')"
    using image_strategy_chain[where e = ex_a1 and ev = ex_env and ms = "[?video, ?png]"
        and m' = ?png] m f u by simp
  have b: "resolve_image ex_env ex_a2 = Some (ascii ''http://x/a.jpg'')"
    using image_strategy_chain[where e = ex_a2 and ev = ex_env and ms = "[]" and m' = ?png]
    by (simp add: ex_a2_no_descriptors ex_a2_html_step)
  have pa: "\<not> prefix (ascii ''image/'') (ascii ''audio/mpeg'')"
    and pj: "prefix (ascii ''image/'') (ascii ''image/jpeg'')"
    and pg: "prefix (ascii ''image/'') (ascii ''image/gif'')"
    by (simp_all add: ascii_def)
  have "\<not> is_image_enclosure ?mp3"
    using image_strategy_chain[where enc = ?mp3 and ms = "[]" and m' = ?png] pa by simp
  moreover have "is_image_enclosure ?jpg"
    using image_strategy_chain[where enc = ?jpg and ms = "[]" and m' = ?png] pj by simp
  ultimately have fe: "find is_image_enclosure [?mp3, ?jpg] = Some ?jpg" by simp
  have ne: "media_content_step ?ee None = None" "media_thumbnail_step ?ee None = None"
    by (simp_all add: media_content_step_def media_thumbnail_step_def no_entry_def)
  have "enclosures_step ?ee None = Some (ascii ''http://a/e.jpg'')"
    using image_strategy_chain[where e = ?ee and ms = "[]" and m' = ?png] fe
    by (simp add: no_entry_def)
  then have c: "resolve_image ex_env ?ee = Some (ascii ''http://a/e.jpg'')"
    using image_strategy_chain[where e = ?ee and ev = ex_env and ms = "[]" and m' = ?png] ne
    by simp
  have "\<not> is_image_link ?lmp3"
    using image_strategy_chain[where lnk = ?lmp3 and ms = "[]" and m' = ?png] pa by simp
  moreover have "is_image_link ?gif"
    using image_strategy_chain[where lnk = ?gif and ms = "[]" and m' = ?png] pg by simp
  ultimately have fl: "find is_image_link [?lmp3, ?gif] = Some ?gif" by simp
  have nl: "media_content_step ?el None = None" "media_thumbnail_step ?el None = None"
    "enclosures_step ?el None = None"
    by (simp_all add: media_content_step_def media_thumbnail_step_def enclosures_step_def
        no_entry_def)
  have "links_step ?el None = Some (ascii ''http://a/l.gif'')"
    using image_strategy_chain[where e = ?el and ms = "[]" and m' = ?png] fl
    by (simp add: no_entry_def)
  then have d: "resolve_image ex_env ?el = Some (ascii ''http://a/l.gif'')"
    using image_strategy_chain[where e = ?el and ev = ex_env and ms = "[]" and m' = ?png] nl
    by simp
  from a s b c d show ?thesis by blast
qed

section \<open>Edge cases of the image strategies\<close>

lemma find_append_first:
  "\<forall>x \<in> set pre. \<not> P x \<Longrightarrow> P m \<Longrightarrow> find P (pre @ m # post) = Some m"
  by (induction pre) simp_all

lemma steps_ignore_media_content:
  "media_thumbnail_step (e\<lparr>e_media_content := x\<rparr>) img = media_thumbnail_step e img"
  "enclosures_step (e\<lparr>e_media_content := x\<rparr>) img = enclosures_step e img"
  "links_step (e\<lparr>e_media_content := x\<rparr>) img = links_step e img"
  "content_to_parse (e\<lparr>e_media_content := x\<rparr>) = content_to_parse e"
  by (simp_all add: media_thumbnail_step_def enclosures_step_def links_step_def
      content_to_parse_def)

lemma html_step_ignores_media_content:
  "html_step ev (e\<lparr>e_media_content := x\<rparr>) img = html_step ev e img"
  by (simp only: html_step_def steps_ignore_media_content)

text \<open>
  Claim C9. In strategy 1, when the first media-content descriptor that passes the image
  test has no \<open>url\<close>, the scan stops there (\<open>break\<close>): \<open>image_url\<close> stays absent, whatever
  descriptors follow it, also image descriptors with a URL. Resolution goes on: the result
  is what strategies 2 to 5 give from an absent \<open>image_url\<close>, the same as for the entry
  without its media-content list.
\<close>

theorem media_scan_stops_at_first_image:
  "(e_media_content e = Some ms \<and> find is_image_media ms = Some m \<and> m_url m = None \<longrightarrow>
      media_content_step e None = None
      \<and> resolve_image ev e
          = html_step ev e (links_step e (enclosures_step e (media_thumbnail_step e None)))
      \<and> resolve_image ev e = resolve_image ev (e\<lparr>e_media_content := None\<rparr>))
   \<and> ((\<forall>x \<in> set pre. \<not> is_image_media x) \<and> is_image_media m \<and> m_url m = None \<longrightarrow>
        scan_media (pre @ m # post) None = None)"
proof (intro conjI impI)
  assume h: "e_media_content e = Some ms \<and> find is_image_media ms = Some m \<and> m_url m = None"
  then show s: "media_content_step e None = None"
    by (simp add: media_content_step_def scan_media_find)
  show r: "resolve_image ev e
      = html_step ev e (links_step e (enclosures_step e (media_thumbnail_step e None)))"
    by (simp add: resolve_image_def s)
  have "media_content_step (e\<lparr>e_media_content := None\<rparr>) None = None"
    by (simp add: media_content_step_def)
  then have "resolve_image ev (e\<lparr>e_media_content := None\<rparr>)
      = html_step ev e (links_step e (enclosures_step e (media_thumbnail_step e None)))"
    by (simp only: resolve_image_def steps_ignore_media_content
        html_step_ignores_media_content)
  then show "resolve_image ev e = resolve_image ev (e\<lparr>e_media_content := None\<rparr>)"
    using r by simp
next
  assume "(\<forall>x \<in> set pre. \<not> is_image_media x) \<and> is_image_media m \<and> m_url m = None"
  then show "scan_media (pre @ m # post) None = None"
    using find_append_first[of pre is_image_media m post] by (simp add: scan_media_find)
qed

theorem media_scan_stops_at_first_image_witness:
  "media_content_step ex_m1 None = None
   \<and> resolve_image ex_env ex_m1 = Some (ascii ''http://a/t.png'')
   \<and> scan_media [\<lparr>m_medium = Some (ascii ''image''), m_type = None, m_url = None\<rparr>,
        \<lparr>m_medium = Some (ascii ''image''), m_type = None,
          m_url = Some (ascii ''http://a/late.png'')\<rparr>] None = None"
proof -
  let ?m = "\<lparr>m_medium = Some (ascii ''image''), m_type = None, m_url = None\<rparr>"
  let ?late = "\<lparr>m_medium = Some (ascii ''image''), m_type = None,
          m_url = Some (ascii ''http://a/late.png'')\<rparr>"
  have m: "e_media_content ex_m1 = Some [?m, ?late]"
    by (simp add: ex_m1_def no_entry_def)
  have i: "is_image_media ?m" by (simp add: is_image_media_def)
  have f: "find is_image_media [?m, ?late] = Some ?m" using i by simp
  have u: "m_url ?m = None" by simp
  note t = media_scan_stops_at_first_image[of ex_m1 "[?m, ?late]" ?m ex_env "[]" "[?late]"]
  have a: "media_content_step ex_m1 None = None" using t m f u by blast
  have "resolve_image ex_env ex_m1 = html_step ex_env ex_m1
      (links_step ex_m1 (enclosures_step ex_m1 (media_thumbnail_step ex_m1 None)))"
    using t m f u by blast
  then have b: "resolve_image ex_env ex_m1 = Some (ascii ''http://a/t.png'')"
    by (simp add: html_step_def links_step_def enclosures_step_def media_thumbnail_step_def
        ex_m1_def no_entry_def)
  have "scan_media ([] @ ?m # [?late]) None = None" using t i u by simp
  then have c: "scan_media [?m, ?late] None = None" by simp
  from a b c show ?thesis by blast
qed

text \<open>
  Claim C10. In strategy 5 only the first \<open>img\<close> element of the parsed text is looked at
  (\<open>soup.find\<close>): when it has no \<open>src\<close>, or an empty one, the scan leaves \<open>image_url\<close> as it
  was, absent, whatever elements follow, also a later \<open>img\<close> with a \<open>src\<close>. When the
  concatenated summary and content text is empty the block does nothing, for every parser:
  the parser is not consulted.
\<close>

theorem html_scan_first_img_only:
  "(\<not> truthy image_url \<and> content_to_parse e \<noteq> []
      \<and> BeautifulSoup ev (content_to_parse e) = Inr (pre @ tag # post)
      \<and> (\<forall>el \<in> set pre. el_name el \<noteq> ascii ''img'') \<and> el_name tag = ascii ''img''
      \<and> \<not> truthy (map_of (el_attrs tag) (ascii ''src'')) \<longrightarrow>
        html_step ev e image_url = image_url \<and> html_step ev e None = None)
   \<and> (content_to_parse e = [] \<longrightarrow> html_step ev e image_url = image_url)"
proof (intro conjI impI)
  assume h: "\<not> truthy image_url \<and> content_to_parse e \<noteq> []
      \<and> BeautifulSoup ev (content_to_parse e) = Inr (pre @ tag # post)
      \<and> (\<forall>el \<in> set pre. el_name el \<noteq> ascii ''img'') \<and> el_name tag = ascii ''img''
      \<and> \<not> truthy (map_of (el_attrs tag) (ascii ''src''))"
  then have f: "soup_find (ascii ''img'') (pre @ tag # post) = Some tag"
    unfolding soup_find_def
    using find_append_first[of pre "\<lambda>el. el_name el = ascii ''img''" tag post] by simp
  show "html_step ev e image_url = image_url"
    using h f by (simp add: html_step_def tag_get_def)
  show "html_step ev e None = None"
    using h f by (simp add: html_step_def tag_get_def)
next
  assume "content_to_parse e = []"
  then show "html_step ev e image_url = image_url"
    by (simp add: html_step_def)
qed

lemma ex_html2_facts: "ex_html2 \<noteq> ex_html" "ex_html2 \<noteq> []"
  by (simp_all add: ex_html2_def ex_html_def ascii_def)

theorem html_scan_first_img_only_witness:
  "html_step ex_env ex_h1 None = None
   \<and> map_of (el_attrs (ex_soup2 ! 1)) (ascii ''src'') = Some (ascii ''http://x/b.jpg'')
   \<and> resolve_image ex_env ex_h1 = None
   \<and> html_step ex_env no_entry None = None"
proof -
  let ?t1 = "\<lparr>el_name = ascii ''img'', el_attrs = [(ascii ''alt'', ascii ''x'')]\<rparr>"
  let ?t2 = "\<lparr>el_name = ascii ''img'', el_attrs = [(ascii ''src'', ascii ''http://x/b.jpg'')]\<rparr>"
  have c: "content_to_parse ex_h1 = ex_html2"
    by (simp add: content_to_parse_def ex_h1_def no_entry_def)
  have p: "BeautifulSoup ex_env (content_to_parse ex_h1) = Inr ([] @ ?t1 # [?t2])"
    by (simp add: c ex_env_def ex_html2_facts ex_soup2_def)
  have n: "\<not> truthy (map_of (el_attrs ?t1) (ascii ''src''))" by simp
  have a: "html_step ex_env ex_h1 None = None"
    using html_scan_first_img_only[of None ex_h1 ex_env "[]" ?t1 "[?t2]"] p n c ex_html2_facts(2)
    by simp
  have b: "map_of (el_attrs (ex_soup2 ! 1)) (ascii ''src'') = Some (ascii ''http://x/b.jpg'')"
    by (simp add: ex_soup2_def)
  have "resolve_image ex_env ex_h1 = html_step ex_env ex_h1 None"
    by (simp add: resolve_image_def links_step_def enclosures_step_def media_thumbnail_step_def
        media_content_step_def ex_h1_def no_entry_def)
  then have d: "resolve_image ex_env ex_h1 = None" using a by simp
  have "content_to_parse no_entry = []"
    by (simp add: content_to_parse_def no_entry_def)
  then have e: "html_step ex_env no_entry None = None"
    using html_scan_first_img_only[of None no_entry ex_env "[]" ?t1 "[]"] by simp
  from a b d e show ?thesis by blast
qed

section \<open>Summarization\<close>

lemma try_models_all_fail:
  "\<forall>m \<in> set ms. gen m prompt = Inl (err m) \<Longrightarrow>
     try_models gen prompt ms errors calls =
       (failure_prefix @ join [10] (errors @ map (\<lambda>m. m @ ascii '': '' @ err m) ms),
        calls @ map (\<lambda>m. Generate m prompt) ms)"
proof (induction ms arbitrary: errors calls)
  case Nil
  then show ?case by simp
next
  case (Cons m ms)
  have "\<forall>m \<in> set ms. gen m prompt = Inl (err m)" using Cons.prems by simp
  from Cons.IH[OF this, of "errors @ [m @ ascii '': '' @ err m]" "calls @ [Generate m prompt]"]
  show ?case using Cons.prems by simp
qed

text \<open>
  Claim C8. For a text that is absent or shorter than 100 characters,
  \<open>summarize_with_gemini\<close> returns the fixed short-content warning and makes no call to the
  backend library: neither \<open>genai.configure\<close> nor any model. For a text of at least 100
  characters on which every model of \<open>models_to_try\<close> fails, it returns the failure prefix
  followed by the lines \<open>model_name: str(e)\<close> of all the attempts, in order, joined by
  newlines, after having configured the library and tried each model once.
\<close>

theorem summarize_short_or_exhausted:
  "(text = None \<or> (\<exists>t. text = Some t \<and> length t < 100) \<longrightarrow>
      summarize_with_gemini gen text api_key = (short_content_warning, []))
   \<and> (100 \<le> length t \<and> (\<forall>m \<in> set models_to_try. gen m (make_prompt t) = Inl (err m)) \<longrightarrow>
      summarize_with_gemini gen (Some t) api_key =
        (failure_prefix @ join [10] (map (\<lambda>m. m @ ascii '': '' @ err m) models_to_try),
         Configure api_key # map (\<lambda>m. Generate m (make_prompt t)) models_to_try))"
proof (intro conjI impI)
  assume "text = None \<or> (\<exists>t. text = Some t \<and> length t < 100)"
  then show "summarize_with_gemini gen text api_key = (short_content_warning, [])"
    by (auto simp: summarize_with_gemini_def)
next
  assume h: "100 \<le> length t \<and> (\<forall>m \<in> set models_to_try. gen m (make_prompt t) = Inl (err m))"
  then have "t \<noteq> []" "\<not> length t < 100" by auto
  then have "summarize_with_gemini gen (Some t) api_key
      = try_models gen (make_prompt t) models_to_try [] [Configure api_key]"
    by (simp add: summarize_with_gemini_def)
  also have "\<dots> = (failure_prefix @ join [10] ([] @ map (\<lambda>m. m @ ascii '': '' @ err m) models_to_try),
      [Configure api_key] @ map (\<lambda>m. Generate m (make_prompt t)) models_to_try)"
    using h by (intro try_models_all_fail) simp
  finally show "summarize_with_gemini gen (Some t) api_key =
        (failure_prefix @ join [10] (map (\<lambda>m. m @ ascii '': '' @ err m) models_to_try),
         Configure api_key # map (\<lambda>m. Generate m (make_prompt t)) models_to_try)"
    by simp
qed

theorem summarize_short_or_exhausted_witness:
  "summarize_with_gemini ex_backend None (ascii ''key'') = (short_content_warning, [])
   \<and> summarize_with_gemini ex_backend (Some (ascii ''too short'')) (ascii ''key'')
       = (short_content_warning, [])
   \<and> fst (summarize_with_gemini ex_backend (Some ex_text) (ascii ''key'')) =
       failure_prefix
       @ ascii ''gemini-2.5-flash: quota exceeded'' @ [10]
       @ ascii ''gemini-2.0-flash: quota exceeded'' @ [10]
       @ ascii ''gemini-flash-latest: quota exceeded'' @ [10]
       @ ascii ''gemini-2.5-pro: quota exceeded'' @ [10]
       @ ascii ''gemini-pro-latest: quota exceeded''
   \<and> length (snd (summarize_with_gemini ex_backend (Some ex_text) (ascii ''key''))) = 6"
proof -
  note t = summarize_short_or_exhausted[of _ ex_backend "ascii ''key''" ex_text
      "\<lambda>m. ascii ''quota exceeded''"]
  have a: "summarize_with_gemini ex_backend None (ascii ''key'') = (short_content_warning, [])"
    using t[of None] by simp
  have "length (ascii ''too short'') < 100" by (simp add: ascii_def)
  then have b: "summarize_with_gemini ex_backend (Some (ascii ''too short'')) (ascii ''key'')
       = (short_content_warning, [])"
    using t[of "Some (ascii ''too short'')"] by simp
  have h: "100 \<le> length ex_text
      \<and> (\<forall>m \<in> set models_to_try. ex_backend m (make_prompt ex_text) = Inl (ascii ''quota exceeded''))"
    by (simp add: ex_text_def ex_backend_def)
  from t[of None] h have c: "summarize_with_gemini ex_backend (Some ex_text) (ascii ''key'') =
        (failure_prefix @ join [10] (map (\<lambda>m. m @ ascii '': '' @ ascii ''quota exceeded'') models_to_try),
         Configure (ascii ''key'') # map (\<lambda>m. Generate m (make_prompt ex_text)) models_to_try)"
    by blast
  have d: "fst (summarize_with_gemini ex_backend (Some ex_text) (ascii ''key'')) =
       failure_prefix
       @ ascii ''gemini-2.5-flash: quota exceeded'' @ [10]
       @ ascii ''gemini-2.0-flash: quota exceeded'' @ [10]
       @ ascii ''gemini-flash-latest: quota exceeded'' @ [10]
       @ ascii ''gemini-2.5-pro: quota exceeded'' @ [10]
       @ ascii ''gemini-pro-latest: quota exceeded''"
    unfolding c by (simp add: models_to_try_def ascii_def)
  have e: "length (snd (summarize_with_gemini ex_backend (Some ex_text) (ascii ''key''))) = 6"
    unfolding c by (simp add: models_to_try_def)
  from a b d e show ?thesis by blast
qed

end
